theory Spec2Isabelle
  imports Complex_Main
begin

section \<open>Internal coordinates of nebterpolator: \<open>sandbox/fast_internal.pyx\<close>\<close>

text \<open>
  The module evaluates bond lengths, bond angles and dihedral angles of a Cartesian
  frame together with their first and second derivatives. The embedding follows the
  Cython source statement by statement: the three \<open>def\<close> evaluators, the \<open>cdef\<close>
  helpers on length-3 arrays and the integer selectors \<open>sign3\<close>, \<open>sign6\<close>, \<open>kron\<close>.
\<close>

subsection \<open>Doubles\<close>

text \<open>
  A C \<open>double\<close> (and an entry of a \<open>np.double\<close> array) is modelled as a real number
  or the token \<open>NonFin\<close>, which stands for a non-finite double (NaN or an infinity).
  Rounding, overflow, underflow and signed zeros are not modelled: finite arithmetic is
  exact. The properties proved below are therefore stated on the expressions the code
  evaluates and do not use the laws of real arithmetic that rounding breaks.

  The arithmetic of numpy arrays is the lifted one: an operation on \<open>NonFin\<close> gives
  \<open>NonFin\<close>, and numpy's division by zero gives \<open>NonFin\<close> (numpy warns and stores
  \<open>nan\<close> or \<open>inf\<close>; it does not raise). An entry \<open>NonFin\<close> of an input frame is a
  NaN; a frame that holds an infinity is not modelled.
\<close>

datatype double = Fin real | NonFin

instantiation double :: "{comm_monoid_add, comm_monoid_mult, comm_semiring, uminus, minus, inverse}"
begin

definition zero_double :: double where
  "zero_double = Fin 0"

definition one_double :: double where
  "one_double = Fin 1"

fun plus_double :: "double \<Rightarrow> double \<Rightarrow> double" where
  "plus_double (Fin x) (Fin y) = Fin (x + y)"
| "plus_double _ _ = NonFin"

fun times_double :: "double \<Rightarrow> double \<Rightarrow> double" where
  "times_double (Fin x) (Fin y) = Fin (x * y)"
| "times_double _ _ = NonFin"

fun uminus_double :: "double \<Rightarrow> double" where
  "uminus_double (Fin x) = Fin (- x)"
| "uminus_double NonFin = NonFin"

fun minus_double :: "double \<Rightarrow> double \<Rightarrow> double" where
  "minus_double (Fin x) (Fin y) = Fin (x - y)"
| "minus_double _ _ = NonFin"

text \<open>numpy's true division: a zero divisor gives \<open>nan\<close> or \<open>inf\<close>, no exception.\<close>

fun divide_double :: "double \<Rightarrow> double \<Rightarrow> double" where
  "divide_double (Fin x) (Fin y) = (if y = 0 then NonFin else Fin (x / y))"
| "divide_double _ _ = NonFin"

fun inverse_double :: "double \<Rightarrow> double" where
  "inverse_double (Fin x) = (if x = 0 then NonFin else Fin (inverse x))"
| "inverse_double NonFin = NonFin"

instance
proof
  fix x y z :: double
  show "x * y = y * x"
    by (cases x; cases y; simp)
  show "x + y = y + x"
    by (cases x; cases y; simp)
  show "1 * x = x"
    unfolding one_double_def by (cases x; simp)
  show "0 + x = x"
    unfolding zero_double_def by (cases x; simp)
  show "(x + y) * z = x * z + y * z"
    by (cases x; cases y; cases z; simp add: algebra_simps)
  show "x * y * z = x * (y * z)"
    by (cases x; cases y; cases z; simp)
  show "x + y + z = x + (y + z)"
    by (cases x; cases y; cases z; simp)
qed

end

instance double :: numeral ..

text \<open>The comparison \<open><\<close> of C doubles: false as soon as an operand is NaN.\<close>

fun dlt :: "double \<Rightarrow> double \<Rightarrow> bool" where
  "dlt (Fin x) (Fin y) = (x < y)"
| "dlt _ _ = False"

text \<open>
  The functions of \<open>libc.math\<close> the module imports and uses. \<open>sqrt\<close> of a negative
  number and \<open>acos\<close> outside \<open>[-1, 1]\<close> are NaN. \<open>atan2 y x\<close> is the angle of the
  point \<open>(x, y)\<close>. When \<open>y\<close> is a zero and \<open>x\<close> is not positive, the C function
  follows the signs of the zeros (\<open>atan2(-0.0, -1.0) = -pi\<close>, \<open>atan2(0.0, -0.0) = pi\<close>);
  the model has one zero and takes the value of \<open>atan2(0.0, x)\<close> with \<open>x\<close> negative or
  \<open>0.0\<close>. What is proved below about such a point holds for each sign of the zeros.
\<close>

fun dsqrt :: "double \<Rightarrow> double" where
  "dsqrt (Fin x) = (if x < 0 then NonFin else Fin (sqrt x))"
| "dsqrt NonFin = NonFin"

fun dacos :: "double \<Rightarrow> double" where
  "dacos (Fin x) = (if - 1 \<le> x \<and> x \<le> 1 then Fin (arccos x) else NonFin)"
| "dacos NonFin = NonFin"

fun dcos :: "double \<Rightarrow> double" where
  "dcos (Fin x) = Fin (cos x)"
| "dcos NonFin = NonFin"

fun dsin :: "double \<Rightarrow> double" where
  "dsin (Fin x) = Fin (sin x)"
| "dsin NonFin = NonFin"

definition atan2 :: "real \<Rightarrow> real \<Rightarrow> real" where
  "atan2 y x =
     (if 0 < x then arctan (y / x)
      else if x < 0 \<and> 0 \<le> y then arctan (y / x) + pi
      else if x < 0 then arctan (y / x) - pi
      else if 0 < y then pi / 2
      else if y < 0 then - (pi / 2)
      else 0)"

fun datan2 :: "double \<Rightarrow> double \<Rightarrow> double" where
  "datan2 (Fin y) (Fin x) = Fin (atan2 y x)"
| "datan2 _ _ = NonFin"

subsection \<open>Errors\<close>

text \<open>
  The exceptions a call can end with: the two the module raises itself, numpy's
  \<open>IndexError\<close> for an index outside an axis, and the \<open>ZeroDivisionError\<close> that
  Cython (directive \<open>cdivision=False\<close>, the default) raises when a C double is
  divided by zero.
\<close>

datatype error =
    TypeError string
  | ValueError string
  | IndexError
  | ZeroDivisionError

text \<open>Division of two C doubles in Cython code.\<close>

definition cdiv :: "double \<Rightarrow> double \<Rightarrow> error + double" where
  "cdiv a b = (if b = Fin 0 then Inl ZeroDivisionError else Inr (a / b))"

subsection \<open>Static functions for length-3 arrays\<close>

type_synonym dvec3 = "double \<times> double \<times> double"
type_synonym dmat3 = "dvec3 \<times> dvec3 \<times> dvec3"

definition outer3_minus_eye :: "dvec3 \<Rightarrow> dvec3 \<Rightarrow> dmat3" where
  "outer3_minus_eye v1 v2 =
     (case v1 of (a0, a1, a2) \<Rightarrow> case v2 of (b0, b1, b2) \<Rightarrow>
        ((a0 * b0 - 1, a0 * b1, a0 * b2),
         (a1 * b0, a1 * b1 - 1, a1 * b2),
         (a2 * b0, a2 * b1, a2 * b2 - 1)))"

definition norm3 :: "dvec3 \<Rightarrow> double" where
  "norm3 v = (case v of (v0, v1, v2) \<Rightarrow> dsqrt (v0 * v0 + v1 * v1 + v2 * v2))"

definition dot3 :: "dvec3 \<Rightarrow> dvec3 \<Rightarrow> double" where
  "dot3 v1 v2 =
     (case v1 of (a0, a1, a2) \<Rightarrow> case v2 of (b0, b1, b2) \<Rightarrow>
        a0 * b0 + a1 * b1 + a2 * b2)"

definition cross3 :: "dvec3 \<Rightarrow> dvec3 \<Rightarrow> dvec3" where
  "cross3 a b =
     (case a of (a0, a1, a2) \<Rightarrow> case b of (b0, b1, b2) \<Rightarrow>
        (a1 * b2 - a2 * b1, a2 * b0 - a0 * b2, a0 * b1 - a1 * b0))"

definition outer3 :: "dvec3 \<Rightarrow> dvec3 \<Rightarrow> dmat3" where
  "outer3 v1 v2 =
     (case v1 of (a0, a1, a2) \<Rightarrow> case v2 of (b0, b1, b2) \<Rightarrow>
        ((a0 * b0, a0 * b1, a0 * b2),
         (a1 * b0, a1 * b1, a1 * b2),
         (a2 * b0, a2 * b1, a2 * b2)))"

definition sym_outer3 :: "dvec3 \<Rightarrow> dvec3 \<Rightarrow> dmat3" where
  "sym_outer3 v1 v2 =
     (case v1 of (a0, a1, a2) \<Rightarrow> case v2 of (b0, b1, b2) \<Rightarrow>
        ((2 * a0 * b0, a0 * b1 + a1 * b0, a0 * b2 + a2 * b0),
         (a0 * b1 + a1 * b0, 2 * a1 * b1, a1 * b2 + a2 * b1),
         (a0 * b2 + a2 * b0, a1 * b2 + a2 * b1, 2 * a2 * b2)))"

definition splay3 :: "dvec3 \<Rightarrow> dmat3" where
  "splay3 v =
     (case v of (v0, v1, v2) \<Rightarrow>
        ((0, - v2 / 2, - v1 / 4),
         (v2 / 2, 0, - v0 / 2),
         (v1 / 4, v0 / 2, 0)))"

definition sign3 :: "int \<Rightarrow> int \<Rightarrow> int \<Rightarrow> int" where
  "sign3 i j k = (if i = j then 1 else if i = k then - 1 else 0)"

definition sign6 :: "int \<Rightarrow> int \<Rightarrow> int \<Rightarrow> int \<Rightarrow> int \<Rightarrow> int \<Rightarrow> int" where
  "sign6 a b c i j k = sign3 a b c * sign3 i j k"

definition kron :: "int \<Rightarrow> int \<Rightarrow> int" where
  "kron i j = (if i = j then 1 else 0)"

subsection \<open>numpy arithmetic on length-3 vectors and 3x3 matrices\<close>

text \<open>
  The elementwise operators the evaluators apply to \<open>ndarray\<close> values of shape
  \<open>(3,)\<close> and \<open>(3, 3)\<close>. A 3x3 matrix is the triple of its rows.
\<close>

definition vzip :: "(double \<Rightarrow> double \<Rightarrow> double) \<Rightarrow> dvec3 \<Rightarrow> dvec3 \<Rightarrow> dvec3" where
  "vzip f a b =
     (case a of (a0, a1, a2) \<Rightarrow> case b of (b0, b1, b2) \<Rightarrow> (f a0 b0, f a1 b1, f a2 b2))"

definition vmap :: "(double \<Rightarrow> double) \<Rightarrow> dvec3 \<Rightarrow> dvec3" where
  "vmap f a = (case a of (a0, a1, a2) \<Rightarrow> (f a0, f a1, f a2))"

definition vadd :: "dvec3 \<Rightarrow> dvec3 \<Rightarrow> dvec3" where
  "vadd = vzip (+)"

definition vsub :: "dvec3 \<Rightarrow> dvec3 \<Rightarrow> dvec3" where
  "vsub = vzip (-)"

definition vneg :: "dvec3 \<Rightarrow> dvec3" where
  "vneg = vmap uminus"

definition vscale :: "dvec3 \<Rightarrow> double \<Rightarrow> dvec3" where
  \<comment> \<open>\<open>v * s\<close>\<close>
  "vscale v s = vmap (\<lambda>x. x * s) v"

definition smulv :: "double \<Rightarrow> dvec3 \<Rightarrow> dvec3" where
  \<comment> \<open>\<open>s * v\<close>\<close>
  "smulv s v = vmap (\<lambda>x. s * x) v"

definition vdiv :: "dvec3 \<Rightarrow> double \<Rightarrow> dvec3" where
  \<comment> \<open>\<open>v / s\<close>\<close>
  "vdiv v s = vmap (\<lambda>x. x / s) v"

definition mzip :: "(double \<Rightarrow> double \<Rightarrow> double) \<Rightarrow> dmat3 \<Rightarrow> dmat3 \<Rightarrow> dmat3" where
  "mzip f A B =
     (case A of (r0, r1, r2) \<Rightarrow> case B of (s0, s1, s2) \<Rightarrow>
        (vzip f r0 s0, vzip f r1 s1, vzip f r2 s2))"

definition mmap :: "(double \<Rightarrow> double) \<Rightarrow> dmat3 \<Rightarrow> dmat3" where
  "mmap f A = (case A of (r0, r1, r2) \<Rightarrow> (vmap f r0, vmap f r1, vmap f r2))"

definition madd :: "dmat3 \<Rightarrow> dmat3 \<Rightarrow> dmat3" where
  "madd = mzip (+)"

definition msub :: "dmat3 \<Rightarrow> dmat3 \<Rightarrow> dmat3" where
  "msub = mzip (-)"

definition mneg :: "dmat3 \<Rightarrow> dmat3" where
  "mneg = mmap uminus"

definition mscale :: "dmat3 \<Rightarrow> double \<Rightarrow> dmat3" where
  \<comment> \<open>\<open>A * s\<close>\<close>
  "mscale A s = mmap (\<lambda>x. x * s) A"

definition smulm :: "double \<Rightarrow> dmat3 \<Rightarrow> dmat3" where
  \<comment> \<open>\<open>s * A\<close>\<close>
  "smulm s A = mmap (\<lambda>x. s * x) A"

definition mdiv :: "dmat3 \<Rightarrow> double \<Rightarrow> dmat3" where
  \<comment> \<open>\<open>A / s\<close>\<close>
  "mdiv A s = mmap (\<lambda>x. x / s) A"

definition transpose3 :: "dmat3 \<Rightarrow> dmat3" where
  \<comment> \<open>\<open>A.T\<close>\<close>
  "transpose3 A =
     (case A of ((a00, a01, a02), (a10, a11, a12), (a20, a21, a22)) \<Rightarrow>
        ((a00, a10, a20), (a01, a11, a21), (a02, a12, a22)))"

definition eye3 :: dmat3 where
  \<comment> \<open>\<open>np.eye(3)\<close>\<close>
  "eye3 = ((1, 0, 0), (0, 1, 0), (0, 0, 1))"

definition zeros3 :: dvec3 where
  "zeros3 = (0, 0, 0)"

definition zeros33 :: dmat3 where
  \<comment> \<open>\<open>np.zeros((3,3))\<close>\<close>
  "zeros33 = (zeros3, zeros3, zeros3)"

text \<open>Reading component \<open>k\<close> of a vector and entry \<open>(j, k)\<close> of a matrix.\<close>

definition vnth :: "dvec3 \<Rightarrow> nat \<Rightarrow> double" where
  "vnth v k = (case v of (v0, v1, v2) \<Rightarrow> if k = 0 then v0 else if k = 1 then v1 else v2)"

definition mnth :: "dmat3 \<Rightarrow> nat \<Rightarrow> nat \<Rightarrow> double" where
  "mnth A j k = (case A of (r0, r1, r2) \<Rightarrow> vnth (if j = 0 then r0 else if j = 1 then r1 else r2) k)"

subsection \<open>Arrays, indices and outputs\<close>

text \<open>
  A two-dimensional C-contiguous \<open>ndarray\<close> of shape \<open>(length rows, shape1)\<close>; each
  row holds \<open>shape1\<close> entries. The frame \<open>xyz\<close> holds doubles (finite or NaN), an index array
  64-bit integers (\<open>np.int_t\<close>). Arrays have fewer than \<open>2^31\<close> rows, so that the C
  \<open>int\<close> copies \<open>n_atoms\<close>, \<open>n_bonds\<close>, ... of \<open>shape[0]\<close> are exact.
\<close>

record 'a ndarray2 =
  shape1 :: nat
  rows :: "'a list list"

text \<open>
  An index read from the index array is stored in a C \<open>int\<close>: the 64-bit value is
  truncated to 32 bits, two's complement.
\<close>

definition c_int :: "int \<Rightarrow> int" where
  "c_int x = (x + 2 ^ 31) mod 2 ^ 32 - 2 ^ 31"

text \<open>
  numpy's index along an axis of length \<open>n\<close>: a negative index counts from the end, an
  index outside \<open>[-n, n)\<close> raises \<open>IndexError\<close> (\<open>None\<close> here).
\<close>

definition pyindex :: "nat \<Rightarrow> int \<Rightarrow> nat option" where
  "pyindex n i =
     (if 0 \<le> i \<and> i < int n then Some (nat i)
      else if - int n \<le> i \<and> i < 0 then Some (nat (i + int n))
      else None)"

definition row3 :: "double list \<Rightarrow> dvec3" where
  "row3 r = (r ! 0, r ! 1, r ! 2)"

text \<open>
  \<open>xyz[m]\<close>: the row of atom \<open>m\<close>, together with the position \<open>m\<close> resolves to (the
  same position the later writes \<open>jacobian[i, m, :]\<close> and \<open>hessian[i, m, :, _, :]\<close>
  resolve to, their atom axis having the same length).
\<close>

definition getitem :: "double ndarray2 \<Rightarrow> int \<Rightarrow> error + (nat \<times> dvec3)" where
  "getitem xyz m =
     (case pyindex (length (rows xyz)) m of
        None \<Rightarrow> Inl IndexError
      | Some k \<Rightarrow> Inr (k, row3 (rows xyz ! k)))"

text \<open>
  The three output arrays while the loop runs. \<open>jac\<close> is allocated (zero-filled) when
  \<open>deriv >= 1\<close> and \<open>hess\<close> when \<open>deriv == 2\<close>; otherwise they are never touched and
  are the empty list here. \<open>hess ! f ! a ! b\<close> is the 3x3 block
  \<open>hessian[f, a, :, b, :]\<close>. \<open>np.empty\<close> leaves the value array uninitialised; every
  entry is written before the function returns, and the placeholder here is zero.
\<close>

record outputs =
  vals :: "double list"
  jac :: "dvec3 list list"
  hess :: "dmat3 list list list"

definition alloc :: "nat \<Rightarrow> nat \<Rightarrow> int \<Rightarrow> outputs" where
  "alloc n_feat n_atoms deriv =
     \<lparr> vals = replicate n_feat 0,
       jac = (if deriv \<ge> 1 then replicate n_feat (replicate n_atoms zeros3) else []),
       hess = (if deriv = 2 then replicate n_feat (replicate n_atoms (replicate n_atoms zeros33))
               else []) \<rparr>"

definition set_row :: "dvec3 list list \<Rightarrow> nat \<Rightarrow> nat \<Rightarrow> dvec3 \<Rightarrow> dvec3 list list" where
  \<comment> \<open>\<open>jacobian[i, a, :] = v\<close>\<close>
  "set_row J i a v = J[i := (J ! i)[a := v]]"

definition blk_set :: "dmat3 list list \<Rightarrow> nat \<Rightarrow> nat \<Rightarrow> dmat3 \<Rightarrow> dmat3 list list" where
  \<comment> \<open>block \<open>(a, b)\<close> of one feature's Hessian replaced by \<open>B\<close>\<close>
  "blk_set Hi a b B = Hi[a := (Hi ! a)[b := B]]"

definition set_block :: "dmat3 list list list \<Rightarrow> nat \<Rightarrow> nat \<Rightarrow> nat \<Rightarrow> dmat3 \<Rightarrow> dmat3 list list list" where
  \<comment> \<open>\<open>hessian[i, a, :, b, :] = B\<close>\<close>
  "set_block H i a b B = H[i := blk_set (H ! i) a b B]"

definition add_block :: "dmat3 list list list \<Rightarrow> nat \<Rightarrow> nat \<Rightarrow> nat \<Rightarrow> dmat3 \<Rightarrow> dmat3 list list list" where
  \<comment> \<open>\<open>hessian[i, a, :, b, :] += B\<close>\<close>
  "add_block H i a b B = set_block H i a b (madd (H ! i ! a ! b) B)"

text \<open>What a call returns: the values, then the Jacobian and the Hessian if asked for.\<close>

datatype retval =
    Ret0 "double list"
  | Ret1 "double list" "dvec3 list list"
  | Ret2 "double list" "dvec3 list list" "dmat3 list list list"

definition returned :: "int \<Rightarrow> outputs \<Rightarrow> retval" where
  "returned deriv out =
     (if deriv = 0 then Ret0 (vals out)
      else if deriv = 1 then Ret1 (vals out) (jac out)
      else Ret2 (vals out) (jac out) (hess out))"

fun values_of :: "retval \<Rightarrow> double list" where
  "values_of (Ret0 v) = v"
| "values_of (Ret1 v J) = v"
| "values_of (Ret2 v J H) = v"

fun jacobian_of :: "retval \<Rightarrow> dvec3 list list" where
  "jacobian_of (Ret0 v) = []"
| "jacobian_of (Ret1 v J) = J"
| "jacobian_of (Ret2 v J H) = J"

fun hessian_of :: "retval \<Rightarrow> dmat3 list list list" where
  "hessian_of (Ret0 v) = []"
| "hessian_of (Ret1 v J) = []"
| "hessian_of (Ret2 v J H) = H"

text \<open>The \<open>for i in range(n)\<close> loop over the rows of the index array; an exception ends it.\<close>

fun for_rows ::
  "(nat \<Rightarrow> int list \<Rightarrow> outputs \<Rightarrow> error + outputs) \<Rightarrow> nat \<Rightarrow> int list list \<Rightarrow> outputs
     \<Rightarrow> error + outputs" where
  "for_rows body i [] out = Inr out"
| "for_rows body i (r # rs) out =
     (case body i r out of
        Inl e \<Rightarrow> Inl e
      | Inr out' \<Rightarrow> for_rows body (Suc i) rs out')"

subsection \<open>\<open>bond_lengths\<close>\<close>

definition bond_lengths_body :: "double ndarray2 \<Rightarrow> int \<Rightarrow> nat \<Rightarrow> int list \<Rightarrow> outputs \<Rightarrow> error + outputs" where
  "bond_lengths_body xyz deriv i r out =
     (let m = c_int (r ! 0); n = c_int (r ! 1) in
      case getitem xyz m of Inl e \<Rightarrow> Inl e | Inr (km, xm) \<Rightarrow>
      case getitem xyz n of Inl e \<Rightarrow> Inl e | Inr (kn, xn) \<Rightarrow>
      let u0 = vsub xm xn;
          norm = norm3 u0;
          out1 = out\<lparr>vals := (vals out)[i := norm]\<rparr>;
          u = (if deriv \<ge> 1 then vdiv u0 norm else u0);
          out2 = (if deriv \<ge> 1
                  then out1\<lparr>jac := set_row (set_row (jac out1) i km u) i kn (vneg u)\<rparr>
                  else out1);
          out3 = (if deriv = 2
                  then let hessian_term0 = mdiv (outer3_minus_eye u u) norm;
                           H1 = set_block (hess out2) i km kn hessian_term0;
                           H2 = set_block H1 i km km (mneg hessian_term0);
                           H3 = set_block H2 i kn km hessian_term0;
                           H4 = set_block H3 i kn kn (mneg hessian_term0)
                       in out2\<lparr>hess := H4\<rparr>
                  else out2)
      in Inr out3)"

definition bond_lengths :: "double ndarray2 \<Rightarrow> int ndarray2 \<Rightarrow> int \<Rightarrow> error + retval" where
  "bond_lengths xyz ibonds deriv =
     (let n_atoms = length (rows xyz) in
      if shape1 xyz \<noteq> 3
      then Inl (TypeError ''xyz must be of length 3 in the last dimension.'')
      else
        let n_bonds = length (rows ibonds) in
        if shape1 ibonds \<noteq> 2 then Inl (TypeError ''ibonds must have 2 columns.'')
        else if \<not> (deriv = 0 \<or> deriv = 1 \<or> deriv = 2)
        then Inl (ValueError ''deriv must be 0, 1, 2'')
        else
          case for_rows (bond_lengths_body xyz deriv) 0 (rows ibonds)
                 (alloc n_bonds n_atoms deriv) of
            Inl e \<Rightarrow> Inl e
          | Inr out \<Rightarrow> Inr (returned deriv out))"

subsection \<open>\<open>bond_angles\<close>\<close>

text \<open>
  An atom of the current feature: the C \<open>int\<close> index and the row it resolves to.
  The source's atom \<open>o\<close> is written \<open>oa\<close> (\<open>o\<close> is function composition in HOL).
\<close>

type_synonym atom = "int \<times> nat"

text \<open>
  \<open>-(cos_angle / sin_angle) * np.outer(jacobian[i], jacobian[i]).reshape(n_atoms, 3,
  n_atoms, 3)\<close>: block \<open>(a, b)\<close> is the scalar times the outer product of rows \<open>a\<close>
  and \<open>b\<close> of the feature's Jacobian.
\<close>

definition outer_jac :: "double \<Rightarrow> dvec3 list \<Rightarrow> dmat3 list list" where
  "outer_jac c Ji = map (\<lambda>ra. map (\<lambda>rb. smulm c (outer3 ra rb)) Ji) Ji"

text \<open>\<open>if s != 0: hessian[i, a, :, b, :] += s * term\<close>\<close>

definition add_if :: "int \<Rightarrow> dmat3 \<Rightarrow> nat \<Rightarrow> nat \<Rightarrow> nat \<Rightarrow> dmat3 list list list \<Rightarrow> dmat3 list list list" where
  "add_if s term i a b H =
     (if s \<noteq> 0 then add_block H i a b (smulm (Fin (of_int s)) term) else H)"

definition bond_angles_pair ::
  "int \<Rightarrow> int \<Rightarrow> int \<Rightarrow> dmat3 \<Rightarrow> dmat3 \<Rightarrow> dmat3 \<Rightarrow> dmat3 \<Rightarrow> nat
     \<Rightarrow> dmat3 list list list \<Rightarrow> atom \<times> atom \<Rightarrow> dmat3 list list list" where
  "bond_angles_pair m n oa term1 term2 term3 term4 i H ab =
     (case ab of ((a, ka), (b, kb)) \<Rightarrow>
        let H1 = add_if (sign6 a m oa b m oa) term1 i ka kb H;
            H2 = add_if (sign6 a n oa b n oa) term2 i ka kb H1;
            H3 = add_if (sign6 a m oa b n oa) term3 i ka kb H2;
            H4 = add_if (sign6 a n oa b m oa) term4 i ka kb H3
        in H4)"

text \<open>The body of \<open>for a in atoms: for b in atoms:\<close>, applied to the pairs in loop order.\<close>

definition atom_pairs :: "atom list \<Rightarrow> (atom \<times> atom) list" where
  "atom_pairs atoms = concat (map (\<lambda>a. map (\<lambda>b. (a, b)) atoms) atoms)"

text \<open>The four matrices \<open>term1\<close>, ..., \<open>term4\<close> of the block \<open>if deriv == 2:\<close>.\<close>

definition bond_angles_terms ::
  "dvec3 \<Rightarrow> dvec3 \<Rightarrow> double \<Rightarrow> double \<Rightarrow> double \<Rightarrow> double \<Rightarrow> dmat3 \<times> dmat3 \<times> dmat3 \<times> dmat3" where
  "bond_angles_terms u v u_norm v_norm cos_angle sin_angle =
     (let uv = outer3 u v;
          uu = outer3 u u;
          vv = outer3 v v;
          eye = eye3;
          term1 = mdiv (madd (madd uv (transpose3 uv)) (mscale (madd (smulm (- 3) uu) eye) cos_angle))
                    (u_norm ^ 2 * sin_angle);
          term2 = mdiv (madd (madd uv (transpose3 uv)) (mscale (madd (smulm (- 3) vv) eye) cos_angle))
                    (v_norm ^ 2 * sin_angle);
          term3 = mdiv (msub (msub (madd uu vv) (mscale uv cos_angle)) eye)
                    (u_norm * v_norm * sin_angle);
          term4 = mdiv (msub (msub (madd uu vv) (mscale (transpose3 uv) cos_angle)) eye)
                    (u_norm * v_norm * sin_angle)
      in (term1, term2, term3, term4))"

definition bond_angles_hessian ::
  "int \<Rightarrow> nat \<Rightarrow> atom \<Rightarrow> atom \<Rightarrow> atom \<Rightarrow> dvec3 \<Rightarrow> dvec3 \<Rightarrow> double \<Rightarrow> double \<Rightarrow> double
     \<Rightarrow> outputs \<Rightarrow> error + outputs" where
  "bond_angles_hessian deriv i am ao an u v u_norm v_norm angle out =
     (if deriv = 2 then
        let cos_angle = dcos angle;
            sin_angle = dsin angle
        in case bond_angles_terms u v u_norm v_norm cos_angle sin_angle of
             (term1, term2, term3, term4) \<Rightarrow>
               case cdiv cos_angle sin_angle of
                 Inl e \<Rightarrow> Inl e
               | Inr q \<Rightarrow>
                   let H0 = (hess out)[i := outer_jac (- q) (jac out ! i)];
                       H = foldl (bond_angles_pair (fst am) (fst an) (fst ao)
                                    term1 term2 term3 term4 i)
                             H0 (atom_pairs [am, an, ao])
                   in Inr (out\<lparr>hess := H\<rparr>)
      else Inr out)"

definition bond_angles_jacobian ::
  "int \<Rightarrow> nat \<Rightarrow> atom \<Rightarrow> atom \<Rightarrow> atom \<Rightarrow> dvec3 \<Rightarrow> dvec3 \<Rightarrow> double \<Rightarrow> double
     \<Rightarrow> outputs \<Rightarrow> error + outputs" where
  "bond_angles_jacobian deriv i am ao an u v u_norm v_norm out =
     (if deriv \<ge> 1 then
        if dlt (norm3 (vadd u v)) (Fin (1 / 10 ^ 10)) \<or> dlt (norm3 (vsub u v)) (Fin (1 / 10 ^ 10))
        then Inl (ValueError ''Sorry. I'll get back to this'')
        else
          let w_prime = cross3 u v;
              w = vdiv w_prime (norm3 w_prime);
              jacobian_term0 = vdiv (cross3 u w) u_norm;
              jacobian_term1 = vdiv (cross3 w v) v_norm;
              J1 = set_row (jac out) i (snd am) jacobian_term0;
              J2 = set_row J1 i (snd an) jacobian_term1;
              J3 = set_row J2 i (snd ao) (vneg (vadd jacobian_term0 jacobian_term1))
          in Inr (out\<lparr>jac := J3\<rparr>)
      else Inr out)"

definition bond_angles_body :: "double ndarray2 \<Rightarrow> int \<Rightarrow> nat \<Rightarrow> int list \<Rightarrow> outputs \<Rightarrow> error + outputs" where
  "bond_angles_body xyz deriv i r out =
     (let m = c_int (r ! 0); oa = c_int (r ! 1); n = c_int (r ! 2) in
      case getitem xyz m of Inl e \<Rightarrow> Inl e | Inr (km, xm) \<Rightarrow>
      case getitem xyz oa of Inl e \<Rightarrow> Inl e | Inr (ko, xo) \<Rightarrow>
      case getitem xyz n of Inl e \<Rightarrow> Inl e | Inr (kn, xn) \<Rightarrow>
      let u_prime = vsub xm xo;
          v_prime = vsub xn xo;
          u_norm = norm3 u_prime;
          v_norm = norm3 v_prime;
          u = vdiv u_prime u_norm;
          v = vdiv v_prime v_norm
      in case cdiv (dot3 u_prime v_prime) (u_norm * v_norm) of
           Inl e \<Rightarrow> Inl e
         | Inr c \<Rightarrow>
             let angle = dacos c;
                 out1 = out\<lparr>vals := (vals out)[i := angle]\<rparr>
             in case bond_angles_jacobian deriv i (m, km) (oa, ko) (n, kn) u v u_norm v_norm out1 of
                  Inl e \<Rightarrow> Inl e
                | Inr out2 \<Rightarrow>
                    bond_angles_hessian deriv i (m, km) (oa, ko) (n, kn) u v u_norm v_norm angle out2)"

definition bond_angles :: "double ndarray2 \<Rightarrow> int ndarray2 \<Rightarrow> int \<Rightarrow> error + retval" where
  "bond_angles xyz iangles deriv =
     (let n_atoms = length (rows xyz) in
      if shape1 xyz \<noteq> 3
      then Inl (TypeError ''xyz must be of length 3 in the last dimension.'')
      else
        let n_angles = length (rows iangles) in
        if shape1 iangles \<noteq> 3 then Inl (TypeError ''iangles must have 3 columns.'')
        else if \<not> (deriv = 0 \<or> deriv = 1 \<or> deriv = 2)
        then Inl (ValueError ''deriv must be 0, 1, 2'')
        else
          case for_rows (bond_angles_body xyz deriv) 0 (rows iangles)
                 (alloc n_angles n_atoms deriv) of
            Inl e \<Rightarrow> Inl e
          | Inr out \<Rightarrow> Inr (returned deriv out))"

subsection \<open>\<open>dihedral_angles\<close>\<close>

text \<open>\<open>if c != 0: factor += c * ht\<close>\<close>

definition factor_add :: "int \<Rightarrow> dmat3 \<Rightarrow> dmat3 \<Rightarrow> dmat3" where
  "factor_add c ht factor = (if c \<noteq> 0 then madd factor (smulm (Fin (of_int c)) ht) else factor)"

definition dihedral_factor ::
  "int \<Rightarrow> int \<Rightarrow> int \<Rightarrow> int \<Rightarrow> dmat3 \<Rightarrow> dmat3 \<Rightarrow> dmat3 \<Rightarrow> dmat3 \<Rightarrow> dmat3 \<Rightarrow> dmat3 \<Rightarrow> dmat3
     \<Rightarrow> int \<Rightarrow> int \<Rightarrow> dmat3" where
  "dihedral_factor m oa p n ht1 ht2 ht3 ht4 ht5 ht6 ht7 a b =
     (let factor = zeros33;
          m1 = sign6 a m oa b m oa;
          m2 = sign6 a n p b n p;
          m3 = sign6 a m oa b oa p + sign6 a p oa b oa p;
          m4 = sign6 a n p b p oa + sign6 a p oa b n oa;
          m5 = sign6 a oa p b p oa;
          m6 = sign6 a oa p b oa p;
          m7 = (1 - kron a b) * (sign6 a m oa b oa p + sign6 a p oa b oa m);
          m8 = (1 - kron a b) * (sign6 a n oa b oa p + sign6 a p oa b oa m);
          factor = factor_add m1 ht1 factor;
          factor = factor_add m2 ht2 factor;
          factor = factor_add m3 ht3 factor;
          factor = factor_add m4 ht4 factor;
          factor = factor_add m5 ht5 factor;
          factor = factor_add m6 ht6 factor;
          factor = factor_add m7 ht7 factor;
          factor = factor_add m8 ht7 factor
      in factor)"

definition dihedral_pair ::
  "(int \<Rightarrow> int \<Rightarrow> dmat3) \<Rightarrow> nat \<Rightarrow> dmat3 list list list \<Rightarrow> atom \<times> atom \<Rightarrow> dmat3 list list list" where
  "dihedral_pair factor i H ab =
     (case ab of ((a, ka), (b, kb)) \<Rightarrow> set_block H i ka kb (factor a b))"

text \<open>
  The four vectors \<open>term1\<close>, ..., \<open>term4\<close> of the block \<open>if deriv >= 1:\<close>, computed
  after the in-place normalisation of the two cross products (\<open>cross_uw\<close> and
  \<open>cross_vw\<close> are the normalised ones here).
\<close>

definition dihedral_terms ::
  "dvec3 \<Rightarrow> dvec3 \<Rightarrow> double \<Rightarrow> double \<Rightarrow> double \<Rightarrow> double \<Rightarrow> double
     \<Rightarrow> dvec3 \<times> dvec3 \<times> dvec3 \<times> dvec3" where
  "dihedral_terms cross_uw cross_vw u_norm v_norm w_norm dot_uw dot_vw =
     (let dot_uw2 = dot_uw * dot_uw;
          dot_vw2 = dot_vw * dot_vw;
          term1 = vdiv cross_uw (u_norm * (1 - dot_uw2));
          term2 = vdiv cross_vw (v_norm * (1 - dot_vw2));
          term3 = vdiv (vscale cross_uw dot_uw) (w_norm * (1 - dot_uw2));
          term4 = vdiv (vscale (vneg cross_vw) dot_vw) (w_norm * (1 - dot_vw2))
      in (term1, term2, term3, term4))"

text \<open>The four writes of that block, as a function of the array \<open>jacobian\<close>.\<close>

definition dihedral_jacobian ::
  "int \<Rightarrow> nat \<Rightarrow> nat \<Rightarrow> nat \<Rightarrow> nat \<Rightarrow> nat \<Rightarrow> dvec3 \<Rightarrow> dvec3 \<Rightarrow> double \<Rightarrow> double \<Rightarrow> double
     \<Rightarrow> double \<Rightarrow> double \<Rightarrow> dvec3 list list \<Rightarrow> dvec3 list list" where
  "dihedral_jacobian deriv i km ko kp kn cross_uw cross_vw u_norm v_norm w_norm dot_uw dot_vw J =
     (if deriv \<ge> 1 then
        case dihedral_terms cross_uw cross_vw u_norm v_norm w_norm dot_uw dot_vw of
          (term1, term2, term3, term4) \<Rightarrow>
            let J1 = set_row J i km term1;
                J2 = set_row J1 i kn (vneg term2);
                J3 = set_row J2 i ko (vsub (vadd (vneg term1) term3) term4);
                J4 = set_row J3 i kp (vadd (vsub term2 term3) term4)
            in J4
      else J)"

text \<open>
  The eight tensors \<open>ht1\<close>, ..., \<open>ht8\<close> the block \<open>if deriv == 2:\<close> computes
  before its two loops.
\<close>

definition dihedral_tensors ::
  "dvec3 \<Rightarrow> dvec3 \<Rightarrow> dvec3 \<Rightarrow> dvec3 \<Rightarrow> dvec3 \<Rightarrow> double \<Rightarrow> double \<Rightarrow> double \<Rightarrow> double \<Rightarrow> double
     \<Rightarrow> dmat3 \<times> dmat3 \<times> dmat3 \<times> dmat3 \<times> dmat3 \<times> dmat3 \<times> dmat3 \<times> dmat3" where
  "dihedral_tensors u v w cross_uw cross_vw u_norm v_norm w_norm dot_uw dot_vw =
     (let dot_uw2 = dot_uw * dot_uw;
          dot_vw2 = dot_vw * dot_vw;
          sin4_u = (1 - dot_uw2) * (1 - dot_uw2);
          sin4_v = (1 - dot_vw2) * (1 - dot_vw2);
          ht1 = mdiv (sym_outer3 cross_uw (vsub (vscale w dot_uw) u))
                  (u_norm * u_norm * sin4_u);
          ht2 = mdiv (sym_outer3 cross_vw (vsub (vscale w dot_vw) v))
                  (v_norm * v_norm * sin4_v);
          ht3 = mdiv (sym_outer3 cross_uw
                        (vadd (vsub w (vscale (smulv 2 u) dot_uw)) (vscale w dot_uw2)))
                  (2 * u_norm * w_norm * sin4_u);
          ht4 = mdiv (sym_outer3 cross_vw
                        (vadd (vsub w (vscale (smulv 2 u) dot_vw)) (vscale w dot_vw2)))
                  (2 * v_norm * w_norm * sin4_v);
          ht5 = mdiv (sym_outer3 cross_uw
                        (vsub (vadd u (vscale u dot_uw2)) (vscale w (3 * dot_uw + dot_uw2))))
                  (2 * w_norm * w_norm * sin4_u);
          ht6 = mdiv (sym_outer3 cross_vw
                        (vsub (vadd v (vscale v dot_vw2)) (vscale w (3 * dot_vw + dot_uw2))))
                  (2 * w_norm * w_norm * sin4_v);
          ht7 = splay3 (vdiv (vsub (vscale w dot_uw) u) (u_norm * w_norm * (1 - dot_uw2)));
          ht8 = splay3 (vdiv (vsub (vscale (vneg w) dot_vw) v)
                          (v_norm * w_norm * (1 - dot_vw2)))
      in (ht1, ht2, ht3, ht4, ht5, ht6, ht7, ht8))"

text \<open>
  The block \<open>if deriv == 2:\<close>, as a function of the array \<open>hessian\<close> it writes
  to. \<open>ht8\<close> is computed and never used.
\<close>

definition dihedral_hessian ::
  "int \<Rightarrow> nat \<Rightarrow> atom \<Rightarrow> atom \<Rightarrow> atom \<Rightarrow> atom \<Rightarrow> dvec3 \<Rightarrow> dvec3 \<Rightarrow> dvec3 \<Rightarrow> dvec3 \<Rightarrow> dvec3
     \<Rightarrow> double \<Rightarrow> double \<Rightarrow> double \<Rightarrow> double \<Rightarrow> double
     \<Rightarrow> dmat3 list list list \<Rightarrow> dmat3 list list list" where
  "dihedral_hessian deriv i am ao ap an u v w cross_uw cross_vw u_norm v_norm w_norm dot_uw dot_vw H =
     (if deriv = 2 then
        case dihedral_tensors u v w cross_uw cross_vw u_norm v_norm w_norm dot_uw dot_vw of
          (ht1, ht2, ht3, ht4, ht5, ht6, ht7, ht8) \<Rightarrow>
            foldl (dihedral_pair
                     (dihedral_factor (fst am) (fst ao) (fst ap) (fst an)
                        ht1 ht2 ht3 ht4 ht5 ht6 ht7) i)
              H (atom_pairs [am, an, ao, ap])
      else H)"

definition dihedral_angles_body :: "double ndarray2 \<Rightarrow> int \<Rightarrow> nat \<Rightarrow> int list \<Rightarrow> outputs \<Rightarrow> error + outputs" where
  "dihedral_angles_body xyz deriv i r out =
     (let m = c_int (r ! 0); oa = c_int (r ! 1); p = c_int (r ! 2); n = c_int (r ! 3) in
      case getitem xyz m of Inl e \<Rightarrow> Inl e | Inr (km, xm) \<Rightarrow>
      case getitem xyz oa of Inl e \<Rightarrow> Inl e | Inr (ko, xo) \<Rightarrow>
      case getitem xyz n of Inl e \<Rightarrow> Inl e | Inr (kn, xn) \<Rightarrow>
      case getitem xyz p of Inl e \<Rightarrow> Inl e | Inr (kp, xp) \<Rightarrow>
      let u_prime = vsub xm xo;
          v_prime = vsub xn xp;
          w_prime = vsub xp xo;
          u_norm = norm3 u_prime;
          v_norm = norm3 v_prime;
          w_norm = norm3 w_prime;
          u = vdiv u_prime u_norm;
          v = vdiv v_prime v_norm;
          w = vdiv w_prime w_norm;
          dot_uw = dot3 u w;
          dot_vw = dot3 v w;
          cross_vw0 = cross3 v_prime w_prime;
          cross_uw0 = cross3 u_prime w_prime;
          out1 = out\<lparr>vals := (vals out)[i :=
                   datan2 (dot3 u_prime cross_vw0 * w_norm) (dot3 cross_vw0 cross_uw0)]\<rparr>;
          cross_vw = (if deriv \<ge> 1 then vdiv cross_vw0 (v_norm * w_norm) else cross_vw0);
          cross_uw = (if deriv \<ge> 1 then vdiv cross_uw0 (u_norm * w_norm) else cross_uw0);
          out2 = out1\<lparr>jac := dihedral_jacobian deriv i km ko kp kn cross_uw cross_vw
                   u_norm v_norm w_norm dot_uw dot_vw (jac out1)\<rparr>;
          out3 = out2\<lparr>hess := dihedral_hessian deriv i (m, km) (oa, ko) (p, kp) (n, kn)
                   u v w cross_uw cross_vw u_norm v_norm w_norm dot_uw dot_vw (hess out2)\<rparr>
      in Inr out3)"

definition dihedral_angles :: "double ndarray2 \<Rightarrow> int ndarray2 \<Rightarrow> int \<Rightarrow> error + retval" where
  "dihedral_angles xyz idihedrals deriv =
     (let n_atoms = length (rows xyz) in
      if shape1 xyz \<noteq> 3
      then Inl (TypeError ''xyz must be of length 3 in the last dimension.'')
      else
        let n_dihedrals = length (rows idihedrals) in
        if shape1 idihedrals \<noteq> 4 then Inl (TypeError ''idihedrals must have 4 columns.'')
        else if \<not> (deriv = 0 \<or> deriv = 1 \<or> deriv = 2)
        then Inl (ValueError ''deriv must be 0, 1, 2'')
        else
          case for_rows (dihedral_angles_body xyz deriv) 0 (rows idihedrals)
                 (alloc n_dihedrals n_atoms deriv) of
            Inl e \<Rightarrow> Inl e
          | Inr out \<Rightarrow> Inr (returned deriv out))"

subsection \<open>The slice of one feature\<close>

text \<open>
  Iteration \<open>i\<close> of each loop reads and writes position \<open>i\<close> of the value array
  and the slices \<open>jacobian[i]\<close> and \<open>hessian[i]\<close> only. \<open>slice_out out i\<close> is
  the state cut down to feature \<open>i\<close> (an array that is not allocated stays empty),
  \<open>store_out\<close> puts a slice back, and \<open>local_body\<close> says that a loop body run at
  \<open>i\<close> is the same body run at \<open>0\<close> on the slice.
\<close>

definition slice_out :: "outputs \<Rightarrow> nat \<Rightarrow> outputs" where
  "slice_out out i =
     \<lparr> vals = take 1 (drop i (vals out)),
       jac = take 1 (drop i (jac out)),
       hess = take 1 (drop i (hess out)) \<rparr>"

definition store_out :: "outputs \<Rightarrow> nat \<Rightarrow> outputs \<Rightarrow> outputs" where
  "store_out out i s =
     \<lparr> vals = (vals out)[i := hd (vals s)],
       jac = (jac out)[i := hd (jac s)],
       hess = (hess out)[i := hd (hess s)] \<rparr>"

definition same_shape :: "outputs \<Rightarrow> outputs \<Rightarrow> bool" where
  "same_shape a b \<longleftrightarrow>
     length (vals a) = length (vals b) \<and> length (jac a) = length (jac b) \<and>
     length (hess a) = length (hess b)"

definition allocated :: "int \<Rightarrow> nat \<Rightarrow> outputs \<Rightarrow> bool" where
  "allocated deriv n out \<longleftrightarrow>
     length (vals out) = n \<and> (deriv \<ge> 1 \<longrightarrow> length (jac out) = n) \<and>
     (deriv = 2 \<longrightarrow> length (hess out) = n)"

definition local_body :: "int \<Rightarrow> (nat \<Rightarrow> int list \<Rightarrow> outputs \<Rightarrow> error + outputs) \<Rightarrow> bool" where
  "local_body deriv body \<longleftrightarrow>
     (\<forall>n i r out. allocated deriv n out \<and> i < n \<longrightarrow>
        body i r out =
          (case body 0 r (slice_out out i) of
             Inl e \<Rightarrow> Inl e
           | Inr s \<Rightarrow> Inr (store_out out i s))) \<and>
     (\<forall>r out s. body 0 r out = Inr s \<longrightarrow> same_shape s out)"

text \<open>What a call returns, cut down to feature \<open>k\<close>.\<close>

fun feature_of :: "retval \<Rightarrow> nat \<Rightarrow> retval" where
  "feature_of (Ret0 v) k = Ret0 [v ! k]"
| "feature_of (Ret1 v J) k = Ret1 [v ! k] [J ! k]"
| "feature_of (Ret2 v J H) k = Ret2 [v ! k] [J ! k] [H ! k]"

text \<open>
  The three evaluators share their frame: the checks, the allocation, the loop and the
  return. \<open>evaluator\<close> is that frame with the loop body, the number of index columns
  and the message as parameters; each evaluator is an instance of it.
\<close>

definition evaluator ::
  "nat \<Rightarrow> string \<Rightarrow> (nat \<Rightarrow> int list \<Rightarrow> outputs \<Rightarrow> error + outputs)
     \<Rightarrow> double ndarray2 \<Rightarrow> int ndarray2 \<Rightarrow> int \<Rightarrow> error + retval" where
  "evaluator arity msg body xyz idx deriv =
     (if shape1 xyz \<noteq> 3
      then Inl (TypeError ''xyz must be of length 3 in the last dimension.'')
      else if shape1 idx \<noteq> arity then Inl (TypeError msg)
      else if \<not> (deriv = 0 \<or> deriv = 1 \<or> deriv = 2)
      then Inl (ValueError ''deriv must be 0, 1, 2'')
      else
        case for_rows body 0 (rows idx) (alloc (length (rows idx)) (length (rows xyz)) deriv) of
          Inl e \<Rightarrow> Inl e
        | Inr out \<Rightarrow> Inr (returned deriv out))"

text \<open>The index array cut down to its row \<open>k\<close>: the call on feature \<open>k\<close> alone.\<close>

definition only :: "int ndarray2 \<Rightarrow> nat \<Rightarrow> int ndarray2" where
  "only idx k = idx\<lparr>rows := [rows idx ! k]\<rparr>"

text \<open>
  The row of the frame an index value refers to: the value as a C \<open>int\<close>, then numpy's
  indexing; \<open>None\<close> when numpy raises \<open>IndexError\<close>. \<open>position xyz k\<close> is row \<open>k\<close>
  of the frame.
\<close>

definition resolve :: "double ndarray2 \<Rightarrow> int \<Rightarrow> nat option" where
  "resolve xyz x = pyindex (length (rows xyz)) (c_int x)"

definition position :: "double ndarray2 \<Rightarrow> nat \<Rightarrow> dvec3" where
  "position xyz k = row3 (rows xyz ! k)"

subsection \<open>The scenario of the test script\<close>

text \<open>
  \<open>test_fast_internal.ipy\<close> evaluates four atoms with \<open>ibonds = [[0,1], [1,2]]\<close>,
  \<open>iangles = [[0,1,2]]\<close> and \<open>idihedrals = [[0,1,2,3]]\<close>. Its coordinates are random;
  here they are fixed so that every bond has length one and the bonds are perpendicular.
\<close>

definition test_xyz :: "double ndarray2" where
  "test_xyz = \<lparr>shape1 = 3, rows = [[0, 1, 0], [0, 0, 0], [1, 0, 0], [1, 0, 1]]\<rparr>"

definition test_ibonds :: "int ndarray2" where
  "test_ibonds = \<lparr>shape1 = 2, rows = [[0, 1], [1, 2]]\<rparr>"

definition test_iangles :: "int ndarray2" where
  "test_iangles = \<lparr>shape1 = 3, rows = [[0, 1, 2]]\<rparr>"

definition test_idihedrals :: "int ndarray2" where
  "test_idihedrals = \<lparr>shape1 = 4, rows = [[0, 1, 2, 3]]\<rparr>"

text \<open>A feature's Hessian has \<open>N\<close> rows of \<open>N\<close> blocks.\<close>

definition square :: "nat \<Rightarrow> 'a list list \<Rightarrow> bool" where
  "square N Hi \<longleftrightarrow> length Hi = N \<and> (\<forall>a < N. length (Hi ! a) = N)"

text \<open>A vector of three finite doubles.\<close>

definition finite3 :: "dvec3 \<Rightarrow> bool" where
  "finite3 v = (case v of (a, b, c) \<Rightarrow> a \<noteq> NonFin \<and> b \<noteq> NonFin \<and> c \<noteq> NonFin)"

text \<open>
  The atoms of a feature: the rows of the frame its \<open>arity\<close> index values refer to, and
  the block of a feature's Hessian that a pair of the loop \<open>for a ...: for b ...:\<close> writes.
\<close>

definition tuple_atoms :: "double ndarray2 \<Rightarrow> nat \<Rightarrow> int list \<Rightarrow> nat option list" where
  "tuple_atoms xyz arity r = map (\<lambda>c. resolve xyz (r ! c)) [0..<arity]"

definition target :: "atom \<times> atom \<Rightarrow> nat \<times> nat" where
  "target ab = (snd (fst ab), snd (snd ab))"

section \<open>Properties\<close>

subsection \<open>Unfolding the definitions on concrete inputs\<close>

lemmas kernel_defs = outer3_minus_eye_def norm3_def dot3_def cross3_def outer3_def sym_outer3_def
  splay3_def sign3_def sign6_def kron_def vzip_def vmap_def vadd_def vsub_def vneg_def vscale_def
  smulv_def vdiv_def mzip_def mmap_def madd_def msub_def mneg_def mscale_def smulm_def mdiv_def
  transpose3_def eye3_def zeros3_def zeros33_def zero_double_def one_double_def

lemmas array_defs = c_int_def pyindex_def row3_def getitem_def alloc_def set_row_def set_block_def
  blk_set_def add_block_def returned_def atom_pairs_def resolve_def position_def

lemmas test_defs = test_xyz_def test_ibonds_def test_iangles_def test_idihedrals_def

lemmas bond_lengths_defs = bond_lengths_def bond_lengths_body_def

lemmas bond_angles_defs = bond_angles_def bond_angles_body_def bond_angles_jacobian_def
  bond_angles_hessian_def bond_angles_terms_def bond_angles_pair_def add_if_def outer_jac_def cdiv_def

lemmas dihedral_angles_defs = dihedral_angles_def dihedral_angles_body_def dihedral_jacobian_def
  dihedral_terms_def dihedral_hessian_def dihedral_tensors_def dihedral_pair_def
  dihedral_factor_def factor_add_def

lemma sqrt2_threshold [simp]: "\<not> sqrt 2 * 10000000000 < 1"
proof -
  have "1 \<le> sqrt 2" by simp
  then show ?thesis by linarith
qed



subsection \<open>Doubles\<close>

lemma plus_NonFin [simp]: "a + NonFin = NonFin" "NonFin + a = NonFin"
  by (cases a; simp)+

lemma times_NonFin [simp]: "a * NonFin = NonFin" "NonFin * a = NonFin"
  by (cases a; simp)+

lemma minus_NonFin [simp]: "a - NonFin = NonFin" "NonFin - a = NonFin"
  by (cases a; simp)+

lemma divide_NonFin [simp]: "a / NonFin = NonFin" "NonFin / a = NonFin"
  by (cases a; simp)+

lemma numeral_double [simp]: "(numeral k :: double) = Fin (numeral k)"
proof (induction k)
  case One
  show ?case by (simp add: one_double_def)
next
  case (Bit0 k)
  show ?case unfolding numeral.simps Bit0 by simp
next
  case (Bit1 k)
  show ?case unfolding numeral.simps Bit1 by (simp add: one_double_def)
qed

subsection \<open>The loop over the features\<close>

lemma take1_drop: "take (Suc 0) (drop i xs) = (if i < length xs then [xs ! i] else [])"
  by (cases "drop i xs") (auto simp: drop_eq_Nil not_less dest: arg_cong[where f=hd] simp: hd_drop_conv_nth)

lemma slice_store_other:
  "j \<noteq> i \<Longrightarrow> slice_out (store_out out i s) j = slice_out out j"
  by (simp add: slice_out_def store_out_def take1_drop nth_list_update)

lemma slice_store_same:
  "same_shape s (slice_out out i) \<Longrightarrow> slice_out (store_out out i s) i = s"
  by (cases s)
     (auto simp: slice_out_def store_out_def take1_drop same_shape_def length_Suc_conv
           split: if_splits)

lemma allocated_store: "allocated deriv n out \<Longrightarrow> allocated deriv n (store_out out i s)"
  by (simp add: allocated_def store_out_def)

lemma local_bodyD:
  assumes "local_body deriv body" "allocated deriv n out" "i < n" "body i r out = Inr out1"
  obtains s where "body 0 r (slice_out out i) = Inr s" "out1 = store_out out i s"
    "same_shape s (slice_out out i)"
proof -
  from assms(1-3) have eq: "body i r out =
      (case body 0 r (slice_out out i) of Inl e \<Rightarrow> Inl e | Inr s \<Rightarrow> Inr (store_out out i s))"
    unfolding local_body_def by blast
  with assms(4) obtain s where s: "body 0 r (slice_out out i) = Inr s" "out1 = store_out out i s"
    by (cases "body 0 r (slice_out out i)") auto
  from assms(1) s(1) have "same_shape s (slice_out out i)"
    unfolding local_body_def by blast
  with s that show ?thesis by blast
qed

lemma local_body_Inl:
  assumes "local_body deriv body" "allocated deriv n out" "i < n" "body i r out = Inl e"
  shows "body 0 r (slice_out out i) = Inl e"
proof -
  from assms(1-3) have eq: "body i r out =
      (case body 0 r (slice_out out i) of Inl e \<Rightarrow> Inl e | Inr s \<Rightarrow> Inr (store_out out i s))"
    unfolding local_body_def by blast
  with assms(4) show ?thesis
    by (cases "body 0 r (slice_out out i)") auto
qed

lemma for_rows_before:
  assumes "local_body deriv body"
  shows "for_rows body i rs out = Inr out' \<Longrightarrow> allocated deriv n out \<Longrightarrow> i + length rs \<le> n \<Longrightarrow>
         j < i \<Longrightarrow> slice_out out' j = slice_out out j"
proof (induction rs arbitrary: i out)
  case Nil
  then show ?case by simp
next
  case (Cons r rs)
  from Cons.prems(1) obtain out1 where b: "body i r out = Inr out1"
    and rest: "for_rows body (Suc i) rs out1 = Inr out'"
    by (auto split: sum.splits)
  from Cons.prems(3) have i: "i < n" by simp
  from local_bodyD [OF assms Cons.prems(2) i b] obtain s where out1: "out1 = store_out out i s"
    by blast
  then have "allocated deriv n out1"
    using Cons.prems(2) by (simp add: allocated_store)
  from Cons.IH [OF rest this] Cons.prems(3,4) out1 show ?case
    by (simp add: slice_store_other)
qed

lemma for_rows_local:
  assumes "local_body deriv body"
  shows "for_rows body i rs out = Inr out' \<Longrightarrow> allocated deriv n out \<Longrightarrow> i + length rs \<le> n \<Longrightarrow>
         k < length rs \<Longrightarrow>
         body 0 (rs ! k) (slice_out out (i + k)) = Inr (slice_out out' (i + k))"
proof (induction rs arbitrary: i out k)
  case Nil
  then show ?case by simp
next
  case (Cons r rs)
  from Cons.prems(1) obtain out1 where b: "body i r out = Inr out1"
    and rest: "for_rows body (Suc i) rs out1 = Inr out'"
    by (auto split: sum.splits)
  from Cons.prems(3) have i: "i < n" and le: "Suc i + length rs \<le> n" by simp_all
  from local_bodyD [OF assms Cons.prems(2) i b] obtain s
    where s: "body 0 r (slice_out out i) = Inr s"
      and out1: "out1 = store_out out i s" and sh: "same_shape s (slice_out out i)" by blast
  have al: "allocated deriv n out1"
    using out1 Cons.prems(2) by (simp add: allocated_store)
  show ?case
  proof (cases k)
    case 0
    have "slice_out out' i = slice_out out1 i"
      by (rule for_rows_before [OF assms rest al le]) simp
    with s out1 sh 0 show ?thesis by (simp add: slice_store_same)
  next
    case (Suc k')
    with Cons.prems(4) have "k' < length rs" by simp
    from Cons.IH [OF rest al le this] out1 Suc show ?thesis
      by (simp add: slice_store_other)
  qed
qed

lemma for_rows_allocated:
  assumes "local_body deriv body"
  shows "for_rows body i rs out = Inr out' \<Longrightarrow> allocated deriv n out \<Longrightarrow> i + length rs \<le> n \<Longrightarrow>
         allocated deriv n out'"
proof (induction rs arbitrary: i out)
  case Nil
  then show ?case by simp
next
  case (Cons r rs)
  from Cons.prems(1) obtain out1 where b: "body i r out = Inr out1"
    and rest: "for_rows body (Suc i) rs out1 = Inr out'"
    by (auto split: sum.splits)
  from Cons.prems(3) have i: "i < n" and le: "Suc i + length rs \<le> n" by simp_all
  from local_bodyD [OF assms Cons.prems(2) i b] obtain s where "out1 = store_out out i s"
    by blast
  then have "allocated deriv n out1"
    using Cons.prems(2) by (simp add: allocated_store)
  from Cons.IH [OF rest this le] show ?case .
qed

lemma for_rows_fails:
  assumes "local_body deriv body"
  shows "for_rows body i rs out = Inl e \<Longrightarrow> allocated deriv n out \<Longrightarrow> i + length rs \<le> n \<Longrightarrow>
         \<exists>k < length rs. body 0 (rs ! k) (slice_out out (i + k)) = Inl e \<and>
           (\<forall>j < k. \<exists>s. body 0 (rs ! j) (slice_out out (i + j)) = Inr s)"
proof (induction rs arbitrary: i out)
  case Nil
  then show ?case by simp
next
  case (Cons r rs)
  from Cons.prems(3) have i: "i < n" and le: "Suc i + length rs \<le> n" by simp_all
  show ?case
  proof (cases "body i r out")
    case (Inl e')
    with Cons.prems(1) have "e' = e" by simp
    with Inl have "body 0 r (slice_out out i) = Inl e"
      using local_body_Inl [OF assms Cons.prems(2) i] by simp
    then show ?thesis by (intro exI [of _ 0]) simp
  next
    case (Inr out1)
    with Cons.prems(1) have rest: "for_rows body (Suc i) rs out1 = Inl e" by simp
    from local_bodyD [OF assms Cons.prems(2) i Inr] obtain s
      where s: "body 0 r (slice_out out i) = Inr s"
        and out1: "out1 = store_out out i s" by blast
    have al: "allocated deriv n out1"
      using out1 Cons.prems(2) by (simp add: allocated_store)
    from Cons.IH [OF rest al le] obtain k where k: "k < length rs"
      "body 0 (rs ! k) (slice_out out1 (Suc i + k)) = Inl e"
      "\<forall>j < k. \<exists>s. body 0 (rs ! j) (slice_out out1 (Suc i + j)) = Inr s" by blast
    have sl: "slice_out out1 (Suc i + j) = slice_out out (Suc i + j)" for j
      using out1 by (simp add: slice_store_other)
    show ?thesis
    proof (intro exI [of _ "Suc k"] conjI allI impI)
      show "Suc k < length (r # rs)" using k(1) by simp
      show "body 0 ((r # rs) ! Suc k) (slice_out out (i + Suc k)) = Inl e"
        using k(2) sl [of k] by simp
      fix j assume "j < Suc k"
      then show "\<exists>s. body 0 ((r # rs) ! j) (slice_out out (i + j)) = Inr s"
        using s k(3) sl by (cases j) auto
    qed
  qed
qed

lemma for_rows_succeeds:
  assumes "local_body deriv body" "allocated deriv n out" "i + length rs \<le> n"
    and ok: "\<And>k. k < length rs \<Longrightarrow> \<exists>s. body 0 (rs ! k) (slice_out out (i + k)) = Inr s"
  shows "\<exists>out'. for_rows body i rs out = Inr out'"
proof (cases "for_rows body i rs out")
  case (Inl e)
  from for_rows_fails [OF assms(1) Inl assms(2,3)] ok show ?thesis by fastforce
next
  case (Inr out')
  then show ?thesis by blast
qed

lemma for_rows_raises:
  assumes "local_body deriv body" "allocated deriv n out" "i + length rs \<le> n"
    and bad: "k < length rs" "body 0 (rs ! k) (slice_out out (i + k)) = Inl e"
  shows "\<exists>e'. for_rows body i rs out = Inl e'"
proof (cases "for_rows body i rs out")
  case (Inl e')
  then show ?thesis by blast
next
  case (Inr out')
  from for_rows_local [OF assms(1) Inr assms(2,3) bad(1)] bad(2) show ?thesis by simp
qed

subsection \<open>Each loop body works on the slice of its feature\<close>

lemma set_row_length [simp]: "length (set_row J i a v) = length J"
  by (simp add: set_row_def)

lemma set_block_length [simp]: "length (set_block H i a b B) = length H"
  by (simp add: set_block_def)

lemma set_row_local:
  "i < length J \<Longrightarrow> set_row J i a v = J[i := hd (set_row [J ! i] 0 a v)]"
  by (simp add: set_row_def)

lemma set_row_upd:
  "i < length J \<Longrightarrow> set_row (J[i := S]) i a v = J[i := hd (set_row [S] 0 a v)]"
  by (simp add: set_row_def)

lemma set_row_single: "set_row [S] 0 a v = [S[a := v]]"
  by (simp add: set_row_def)

lemma set_block_upd:
  "i < length H \<Longrightarrow> set_block (H[i := S]) i a b B = H[i := hd (set_block [S] 0 a b B)]"
  by (simp add: set_block_def)

lemma set_block_start:
  "i < length H \<Longrightarrow> set_block H i a b B = H[i := hd (set_block [H ! i] 0 a b B)]"
  by (simp add: set_block_def)

lemma set_block_single: "set_block [S] 0 a b B = [blk_set S a b B]"
  by (simp add: set_block_def)

lemma take1_drop_in: "i < length xs \<Longrightarrow> take (Suc 0) (drop i xs) = [xs ! i]"
  by (simp add: take1_drop)

lemma store_slice_id: "xs[i := hd (drop i xs)] = xs"
  by (cases "i < length xs") (simp_all add: hd_drop_conv_nth list_update_beyond)

lemma bond_lengths_local: "local_body deriv (bond_lengths_body xyz deriv)"
  unfolding local_body_def
proof (intro conjI allI impI)
  fix n i r out
  assume a: "allocated deriv n out \<and> i < n"
  obtain v J H where out: "out = \<lparr>vals = v, jac = J, hess = H\<rparr>" by (cases out) auto
  consider "deriv = 2" | "deriv \<ge> 1" "deriv \<noteq> 2" | "\<not> deriv \<ge> 1" by blast
  then show "bond_lengths_body xyz deriv i r out =
        (case bond_lengths_body xyz deriv 0 r (slice_out out i) of
           Inl e \<Rightarrow> Inl e | Inr s \<Rightarrow> Inr (store_out out i s))"
  proof cases
    case 1
    with a out show ?thesis
      by (simp add: bond_lengths_body_def Let_def slice_out_def store_out_def take1_drop_in
          store_slice_id allocated_def set_row_def set_block_def split: sum.splits prod.splits)
  next
    case 2
    with a out show ?thesis
      by (auto simp: bond_lengths_body_def Let_def slice_out_def store_out_def take1_drop_in
          store_slice_id allocated_def set_row_def split: sum.splits prod.splits)
  next
    case 3
    with a out show ?thesis
      by (auto simp: bond_lengths_body_def Let_def slice_out_def store_out_def take1_drop_in
          store_slice_id allocated_def split: sum.splits prod.splits)
  qed
next
  fix r out s
  assume "bond_lengths_body xyz deriv 0 r out = Inr s"
  then show "same_shape s out"
    by (auto simp: bond_lengths_body_def Let_def same_shape_def split: sum.splits prod.splits if_splits)
qed


lemma add_if_upd:
  "i < length H \<Longrightarrow> add_if s t i a b (H[i := X]) =
     H[i := (if s \<noteq> 0 then blk_set X a b (madd (X ! a ! b) (smulm (Fin (of_int s)) t)) else X)]"
  by (simp add: add_if_def add_block_def set_block_def)

lemma add_if_single:
  "add_if s t 0 a b [X] =
     [if s \<noteq> 0 then blk_set X a b (madd (X ! a ! b) (smulm (Fin (of_int s)) t)) else X]"
  by (simp add: add_if_def add_block_def set_block_def)

lemma bond_angles_pair_upd:
  "i < length H \<Longrightarrow> bond_angles_pair m n oa t1 t2 t3 t4 i (H[i := X]) ab =
     H[i := hd (bond_angles_pair m n oa t1 t2 t3 t4 0 [X] ab)]"
  by (cases ab) (simp add: bond_angles_pair_def Let_def add_if_upd add_if_single split: prod.splits)

lemma bond_angles_pair_length [simp]:
  "length (bond_angles_pair m n oa t1 t2 t3 t4 i H ab) = length H"
  by (cases ab) (simp add: bond_angles_pair_def Let_def add_if_def add_block_def set_block_def split: prod.splits)

lemma dihedral_pair_upd:
  "i < length H \<Longrightarrow> dihedral_pair factor i (H[i := X]) ab = H[i := hd (dihedral_pair factor 0 [X] ab)]"
  by (cases ab) (simp add: dihedral_pair_def set_block_def split: prod.splits)

lemma dihedral_pair_length [simp]: "length (dihedral_pair factor i H ab) = length H"
  by (cases ab) (simp add: dihedral_pair_def set_block_def split: prod.splits)

lemma foldl_upd:
  assumes upd: "\<And>H X p. i < length H \<Longrightarrow> f i (H[i := X]) p = H[i := hd (f 0 [X] p)]"
    and len: "\<And>H p. length (f 0 H p) = length H"
  shows "i < length H \<Longrightarrow> foldl (f i) (H[i := X]) ps = H[i := hd (foldl (f 0) [X] ps)]"
proof (induction ps arbitrary: X)
  case Nil
  then show ?case by simp
next
  case (Cons p ps)
  have "length (f 0 [X] p) = 1" by (simp add: len)
  then have single: "[hd (f 0 [X] p)] = f 0 [X] p"
    by (cases "f 0 [X] p") simp_all
  from Cons show ?case by (simp add: upd single)
qed

lemma foldl_length:
  assumes len: "\<And>H p. length (f H p) = length H"
  shows "length (foldl f H ps) = length H"
  by (induction ps arbitrary: H) (simp_all add: len)


lemma foldl_bond_angles_pair:
  "i < length H \<Longrightarrow>
   foldl (bond_angles_pair m n oa t1 t2 t3 t4 i) (H[i := X]) ps =
     H[i := hd (foldl (bond_angles_pair m n oa t1 t2 t3 t4 0) [X] ps)]"
  by (rule foldl_upd) (simp_all add: bond_angles_pair_upd)

lemma foldl_dihedral_pair:
  assumes "i < length H"
  shows "foldl (dihedral_pair factor i) H ps = H[i := hd (foldl (dihedral_pair factor 0) [H ! i] ps)]"
proof -
  have "foldl (dihedral_pair factor i) (H[i := H ! i]) ps =
        H[i := hd (foldl (dihedral_pair factor 0) [H ! i] ps)]"
    using assms by (rule foldl_upd [rotated 2]) (simp_all add: dihedral_pair_upd)
  then show ?thesis by simp
qed

lemma bond_angles_local: "local_body deriv (bond_angles_body xyz deriv)"
  unfolding local_body_def
proof (intro conjI allI impI)
  fix n i r out
  assume a: "allocated deriv n out \<and> i < n"
  obtain v J H where out: "out = \<lparr>vals = v, jac = J, hess = H\<rparr>" by (cases out) auto
  consider "deriv = 2" | "deriv \<ge> 1" "deriv \<noteq> 2" | "\<not> deriv \<ge> 1" by blast
  then show "bond_angles_body xyz deriv i r out =
        (case bond_angles_body xyz deriv 0 r (slice_out out i) of
           Inl e \<Rightarrow> Inl e | Inr s \<Rightarrow> Inr (store_out out i s))"
  proof cases
    case 1
    with a out show ?thesis
      by (simp add: bond_angles_body_def bond_angles_jacobian_def bond_angles_hessian_def
          Let_def slice_out_def store_out_def take1_drop_in
          store_slice_id allocated_def set_row_def foldl_bond_angles_pair
          split: sum.splits prod.splits del: foldl.simps)
  next
    case 2
    with a out show ?thesis
      by (auto simp: bond_angles_body_def bond_angles_jacobian_def bond_angles_hessian_def
          Let_def slice_out_def store_out_def take1_drop_in
          store_slice_id allocated_def set_row_def split: sum.splits prod.splits)
  next
    case 3
    with a out show ?thesis
      by (auto simp: bond_angles_body_def bond_angles_jacobian_def bond_angles_hessian_def
          Let_def slice_out_def store_out_def take1_drop_in
          store_slice_id allocated_def split: sum.splits prod.splits)
  qed
next
  fix r out s
  assume "bond_angles_body xyz deriv 0 r out = Inr s"
  then show "same_shape s out"
    by (auto simp: bond_angles_body_def bond_angles_jacobian_def bond_angles_hessian_def
          Let_def same_shape_def foldl_length split: sum.splits prod.splits if_splits)
qed


lemma dihedral_jacobian_slice:
  "i < length J \<Longrightarrow>
   dihedral_jacobian deriv i km ko kp kn cu cv un vn wn du dv J =
     J[i := hd (dihedral_jacobian deriv 0 km ko kp kn cu cv un vn wn du dv [J ! i])]"
  by (simp add: dihedral_jacobian_def Let_def set_row_def split: prod.splits)

lemma dihedral_jacobian_off:
  "\<not> deriv \<ge> 1 \<Longrightarrow> dihedral_jacobian deriv i km ko kp kn cu cv un vn wn du dv J = J"
  by (simp add: dihedral_jacobian_def)

lemma dihedral_jacobian_length [simp]:
  "length (dihedral_jacobian deriv i km ko kp kn cu cv un vn wn du dv J) = length J"
  by (simp add: dihedral_jacobian_def Let_def split: prod.splits)

lemma dihedral_hessian_slice:
  "i < length H \<Longrightarrow>
   dihedral_hessian deriv i am ao ap an u v w cu cv un vn wn du dv H =
     H[i := hd (dihedral_hessian deriv 0 am ao ap an u v w cu cv un vn wn du dv [H ! i])]"
  by (simp add: dihedral_hessian_def Let_def foldl_dihedral_pair [where i = i and H = H]
        split: prod.splits del: foldl.simps)

lemma dihedral_hessian_off:
  "deriv \<noteq> 2 \<Longrightarrow> dihedral_hessian deriv i am ao ap an u v w cu cv un vn wn du dv H = H"
  by (simp add: dihedral_hessian_def)

lemma dihedral_hessian_length [simp]:
  "length (dihedral_hessian deriv i am ao ap an u v w cu cv un vn wn du dv H) = length H"
  by (simp add: dihedral_hessian_def Let_def foldl_length split: prod.splits del: foldl.simps)

lemma dihedral_angles_local: "local_body deriv (dihedral_angles_body xyz deriv)"
  unfolding local_body_def
proof (intro conjI allI impI)
  fix n i r out
  assume a: "allocated deriv n out \<and> i < n"
  obtain v J H where out: "out = \<lparr>vals = v, jac = J, hess = H\<rparr>" by (cases out) auto
  consider "deriv = 2" | "deriv \<ge> 1" "deriv \<noteq> 2" | "\<not> deriv \<ge> 1" by blast
  then show "dihedral_angles_body xyz deriv i r out =
        (case dihedral_angles_body xyz deriv 0 r (slice_out out i) of
           Inl e \<Rightarrow> Inl e | Inr s \<Rightarrow> Inr (store_out out i s))"
  proof cases
    case 1
    with a out show ?thesis
      by (simp add: dihedral_angles_body_def
          Let_def slice_out_def store_out_def take1_drop_in
          store_slice_id allocated_def dihedral_jacobian_slice [where i = i and J = J]
          dihedral_hessian_slice [where i = i and H = H]
          split: sum.splits prod.splits)
  next
    case 2
    with a out show ?thesis
      by (simp add: dihedral_angles_body_def
          Let_def slice_out_def store_out_def take1_drop_in
          store_slice_id allocated_def dihedral_jacobian_slice [where i = i and J = J]
          dihedral_hessian_off
          split: sum.splits prod.splits)
  next
    case 3
    with a out show ?thesis
      by (simp add: dihedral_angles_body_def
          Let_def slice_out_def store_out_def take1_drop_in
          store_slice_id allocated_def dihedral_jacobian_off dihedral_hessian_off
          split: sum.splits prod.splits)
  qed
next
  fix r out s
  assume "dihedral_angles_body xyz deriv 0 r out = Inr s"
  then show "same_shape s out"
    by (auto simp: dihedral_angles_body_def
          Let_def same_shape_def split: sum.splits prod.splits if_splits)
qed

subsection \<open>A call on many features and the calls on each feature\<close>

lemma allocated_alloc: "allocated deriv n (alloc n N deriv)"
  by (simp add: allocated_def alloc_def)

lemma slice_alloc: "k < n \<Longrightarrow> slice_out (alloc n N deriv) k = alloc 1 N deriv"
  by (simp add: slice_out_def alloc_def take1_drop)

lemma returned_slice:
  assumes "allocated deriv n out" "k < n" "deriv = 0 \<or> deriv = 1 \<or> deriv = 2"
  shows "returned deriv (slice_out out k) = feature_of (returned deriv out) k"
  using assms by (auto simp: returned_def slice_out_def allocated_def take1_drop)

lemma for_rows_single: "for_rows body i [r] out = body i r out"
  by (cases "body i r out") simp_all

lemma loop_feature:
  assumes loc: "local_body deriv body"
    and run: "for_rows body 0 rs (alloc (length rs) N deriv) = Inr out"
    and k: "k < length rs" and d: "deriv = 0 \<or> deriv = 1 \<or> deriv = 2"
  shows "for_rows body 0 [rs ! k] (alloc 1 N deriv) = Inr (slice_out out k)"
    and "returned deriv (slice_out out k) = feature_of (returned deriv out) k"
proof -
  from for_rows_local [OF loc run allocated_alloc _ k]
  show "for_rows body 0 [rs ! k] (alloc 1 N deriv) = Inr (slice_out out k)"
    using k by (simp add: slice_alloc for_rows_single)
  have "allocated deriv (length rs) out"
    by (rule for_rows_allocated [OF loc run allocated_alloc]) simp
  then show "returned deriv (slice_out out k) = feature_of (returned deriv out) k"
    using k d by (rule returned_slice)
qed

lemma loop_fails:
  assumes loc: "local_body deriv body"
    and run: "for_rows body 0 rs (alloc (length rs) N deriv) = Inl e"
  shows "\<exists>k < length rs. for_rows body 0 [rs ! k] (alloc 1 N deriv) = Inl e \<and>
           (\<forall>j < k. \<exists>s. for_rows body 0 [rs ! j] (alloc 1 N deriv) = Inr s)"
proof -
  from for_rows_fails [OF loc run allocated_alloc] obtain k where k: "k < length rs"
    "body 0 (rs ! k) (slice_out (alloc (length rs) N deriv) (0 + k)) = Inl e"
    "\<forall>j < k. \<exists>s. body 0 (rs ! j) (slice_out (alloc (length rs) N deriv) (0 + j)) = Inr s"
    by auto
  then show ?thesis
    unfolding for_rows_single by (intro exI [of _ k]) (simp add: slice_alloc)
qed

lemma loop_raises:
  assumes loc: "local_body deriv body"
    and k: "k < length rs" and bad: "for_rows body 0 [rs ! k] (alloc 1 N deriv) = Inl e"
  shows "\<exists>e'. for_rows body 0 rs (alloc (length rs) N deriv) = Inl e'"
proof -
  from bad k have "body 0 (rs ! k) (slice_out (alloc (length rs) N deriv) (0 + k)) = Inl e"
    unfolding for_rows_single by (simp add: slice_alloc)
  with for_rows_raises [OF loc allocated_alloc _ k] show ?thesis by simp
qed

lemma loop_succeeds:
  assumes loc: "local_body deriv body"
    and ok: "\<And>k. k < length rs \<Longrightarrow> \<exists>s. for_rows body 0 [rs ! k] (alloc 1 N deriv) = Inr s"
  shows "\<exists>out. for_rows body 0 rs (alloc (length rs) N deriv) = Inr out"
proof (rule for_rows_succeeds [OF loc allocated_alloc])
  show "0 + length rs \<le> length rs" by simp
  fix k assume "k < length rs"
  with ok [OF this] show "\<exists>s. body 0 (rs ! k) (slice_out (alloc (length rs) N deriv) (0 + k)) = Inr s"
    unfolding for_rows_single by (simp add: slice_alloc)
qed

lemma bond_lengths_evaluator:
  "bond_lengths xyz ibonds deriv =
     evaluator 2 ''ibonds must have 2 columns.'' (bond_lengths_body xyz deriv) xyz ibonds deriv"
  by (simp add: bond_lengths_def evaluator_def Let_def)

lemma bond_angles_evaluator:
  "bond_angles xyz iangles deriv =
     evaluator 3 ''iangles must have 3 columns.'' (bond_angles_body xyz deriv) xyz iangles deriv"
  by (simp add: bond_angles_def evaluator_def Let_def)

lemma dihedral_angles_evaluator:
  "dihedral_angles xyz idihedrals deriv =
     evaluator 4 ''idihedrals must have 4 columns.'' (dihedral_angles_body xyz deriv) xyz idihedrals deriv"
  by (simp add: dihedral_angles_def evaluator_def Let_def)

lemma evaluator_only:
  "evaluator arity msg body xyz (only idx k) deriv =
     (if shape1 xyz \<noteq> 3
      then Inl (TypeError ''xyz must be of length 3 in the last dimension.'')
      else if shape1 idx \<noteq> arity then Inl (TypeError msg)
      else if \<not> (deriv = 0 \<or> deriv = 1 \<or> deriv = 2)
      then Inl (ValueError ''deriv must be 0, 1, 2'')
      else
        case for_rows body 0 [rows idx ! k] (alloc 1 (length (rows xyz)) deriv) of
          Inl e \<Rightarrow> Inl e
        | Inr out \<Rightarrow> Inr (returned deriv out))"
  by (simp add: evaluator_def only_def del: for_rows.simps)

lemma evaluator_feature:
  assumes loc: "local_body deriv body"
    and run: "evaluator arity msg body xyz idx deriv = Inr ret" and k: "k < length (rows idx)"
  shows "evaluator arity msg body xyz (only idx k) deriv = Inr (feature_of ret k)"
proof -
  from run have sh: "shape1 xyz = 3" "shape1 idx = arity" "deriv = 0 \<or> deriv = 1 \<or> deriv = 2"
    by (auto simp: evaluator_def split: if_splits)
  with run obtain out where
    out: "for_rows body 0 (rows idx) (alloc (length (rows idx)) (length (rows xyz)) deriv) = Inr out"
    and ret: "ret = returned deriv out"
    by (auto simp: evaluator_def split: sum.splits)
  from loop_feature [OF loc out k sh(3)] sh ret show ?thesis
    unfolding evaluator_only by simp
qed

lemma evaluator_length:
  assumes loc: "local_body deriv body"
    and run: "evaluator arity msg body xyz idx deriv = Inr ret"
  shows "length (values_of ret) = length (rows idx)"
proof -
  from run have sh: "shape1 xyz = 3" "shape1 idx = arity" "deriv = 0 \<or> deriv = 1 \<or> deriv = 2"
    by (auto simp: evaluator_def split: if_splits)
  with run obtain out where
    out: "for_rows body 0 (rows idx) (alloc (length (rows idx)) (length (rows xyz)) deriv) = Inr out"
    and ret: "ret = returned deriv out"
    by (auto simp: evaluator_def split: sum.splits)
  have "allocated deriv (length (rows idx)) out"
    by (rule for_rows_allocated [OF loc out allocated_alloc]) simp
  with ret show ?thesis by (auto simp: allocated_def returned_def)
qed

lemma evaluator_fails:
  assumes loc: "local_body deriv body"
    and run: "evaluator arity msg body xyz idx deriv = Inl e"
    and sh: "shape1 xyz = 3" "shape1 idx = arity" "deriv = 0 \<or> deriv = 1 \<or> deriv = 2"
  shows "\<exists>k < length (rows idx). evaluator arity msg body xyz (only idx k) deriv = Inl e \<and>
           (\<forall>j < k. \<exists>s. evaluator arity msg body xyz (only idx j) deriv = Inr s)"
proof -
  from run sh have
    "for_rows body 0 (rows idx) (alloc (length (rows idx)) (length (rows xyz)) deriv) = Inl e"
    by (auto simp: evaluator_def split: sum.splits)
  from loop_fails [OF loc this] obtain k where k: "k < length (rows idx)"
    "for_rows body 0 [rows idx ! k] (alloc 1 (length (rows xyz)) deriv) = Inl e"
    "\<forall>j < k. \<exists>s. for_rows body 0 [rows idx ! j] (alloc 1 (length (rows xyz)) deriv) = Inr s"
    by blast
  show ?thesis
  proof (intro exI [of _ k] conjI allI impI)
    show "k < length (rows idx)" by fact
    show "evaluator arity msg body xyz (only idx k) deriv = Inl e"
      unfolding evaluator_only using k(2) sh by simp
    fix j assume "j < k"
    with k(3) obtain s where "for_rows body 0 [rows idx ! j] (alloc 1 (length (rows xyz)) deriv) = Inr s"
      by blast
    then show "\<exists>s. evaluator arity msg body xyz (only idx j) deriv = Inr s"
      unfolding evaluator_only using sh by simp
  qed
qed

lemma evaluator_raises:
  assumes loc: "local_body deriv body"
    and k: "k < length (rows idx)" and bad: "evaluator arity msg body xyz (only idx k) deriv = Inl e"
  shows "\<exists>e'. evaluator arity msg body xyz idx deriv = Inl e'"
proof (cases "evaluator arity msg body xyz idx deriv")
  case (Inl e')
  then show ?thesis by blast
next
  case (Inr ret)
  from evaluator_feature [OF loc Inr k] bad show ?thesis by simp
qed

lemma evaluator_first_failure:
  assumes loc: "local_body deriv body"
    and k: "k < length (rows idx)" and bad: "evaluator arity msg body xyz (only idx k) deriv = Inl e"
    and before: "\<And>j. j < k \<Longrightarrow> \<exists>s. evaluator arity msg body xyz (only idx j) deriv = Inr s"
    and sh: "shape1 xyz = 3" "shape1 idx = arity" "deriv = 0 \<or> deriv = 1 \<or> deriv = 2"
  shows "evaluator arity msg body xyz idx deriv = Inl e"
proof -
  from evaluator_raises [OF loc k bad] obtain e' where e': "evaluator arity msg body xyz idx deriv = Inl e'"
    by blast
  from evaluator_fails [OF loc e' sh] obtain k' where k': "k' < length (rows idx)"
    "evaluator arity msg body xyz (only idx k') deriv = Inl e'"
    "\<forall>j < k'. \<exists>s. evaluator arity msg body xyz (only idx j) deriv = Inr s" by blast
  have "\<not> k' < k" using before [of k'] k'(2) by auto
  moreover have "\<not> k < k'" using k'(3) bad by auto
  ultimately have "k' = k" by simp
  with k'(2) bad e' show ?thesis by simp
qed

lemma evaluator_succeeds:
  assumes loc: "local_body deriv body"
    and ok: "\<And>k. k < length (rows idx) \<Longrightarrow> \<exists>s. evaluator arity msg body xyz (only idx k) deriv = Inr s"
    and sh: "shape1 xyz = 3" "shape1 idx = arity" "deriv = 0 \<or> deriv = 1 \<or> deriv = 2"
  shows "\<exists>ret. evaluator arity msg body xyz idx deriv = Inr ret"
proof (cases "evaluator arity msg body xyz idx deriv")
  case (Inl e)
  from evaluator_fails [OF loc Inl sh] ok show ?thesis by fastforce
next
  case (Inr ret)
  then show ?thesis by blast
qed

subsection \<open>\<open>bond_lengths\<close> on one pair\<close>

lemma resolve_less: "resolve xyz x = Some k \<Longrightarrow> k < length (rows xyz)"
  by (auto simp: resolve_def pyindex_def split: if_splits)

lemma getitem_resolve:
  "getitem xyz (c_int x) = (case resolve xyz x of None \<Rightarrow> Inl IndexError
                            | Some k \<Rightarrow> Inr (k, position xyz k))"
  by (simp add: getitem_def resolve_def position_def split: option.splits)

lemma bond_lengths_only_body:
  assumes run: "bond_lengths xyz (only ibonds k) deriv = Inr ret"
  obtains out where
    "bond_lengths_body xyz deriv 0 (rows ibonds ! k) (alloc 1 (length (rows xyz)) deriv) = Inr out"
    "ret = returned deriv out" "deriv = 0 \<or> deriv = 1 \<or> deriv = 2"
proof -
  from run have sh: "shape1 xyz = 3" "shape1 ibonds = 2" "deriv = 0 \<or> deriv = 1 \<or> deriv = 2"
    by (auto simp: bond_lengths_evaluator evaluator_only split: if_splits)
  with run that show ?thesis
    unfolding bond_lengths_evaluator evaluator_only for_rows_single
    by (auto split: sum.splits)
qed

lemma bond_lengths_only_atoms:
  assumes run: "bond_lengths xyz (only ibonds k) deriv = Inr ret"
  obtains m n where
    "resolve xyz (rows ibonds ! k ! 0) = Some m" "resolve xyz (rows ibonds ! k ! 1) = Some n"
proof -
  from bond_lengths_only_body [OF run] obtain out where
    "bond_lengths_body xyz deriv 0 (rows ibonds ! k) (alloc 1 (length (rows xyz)) deriv) = Inr out"
    by blast
  then show ?thesis using that
    by (auto simp: bond_lengths_body_def getitem_resolve Let_def split: option.splits)
qed

lemma bond_lengths_only:
  fixes xyz m n
  defines "u \<equiv> vsub (position xyz m) (position xyz n)"
  defines "h \<equiv> mdiv (outer3_minus_eye (vdiv u (norm3 u)) (vdiv u (norm3 u))) (norm3 u)"
  assumes run: "bond_lengths xyz (only ibonds k) deriv = Inr ret"
    and atoms: "resolve xyz (rows ibonds ! k ! 0) = Some m" "resolve xyz (rows ibonds ! k ! 1) = Some n"
  shows "values_of ret = [norm3 u]"
    and "deriv \<ge> 1 \<Longrightarrow> jacobian_of ret =
       [(replicate (length (rows xyz)) zeros3)[m := vdiv u (norm3 u), n := vneg (vdiv u (norm3 u))]]"
    and "deriv = 2 \<Longrightarrow> hessian_of ret =
       [blk_set (blk_set (blk_set (blk_set
          (replicate (length (rows xyz)) (replicate (length (rows xyz)) zeros33)) m n h)
          m m (mneg h)) n m h) n n (mneg h)]"
proof -
  from bond_lengths_only_body [OF run] obtain out where
    out: "bond_lengths_body xyz deriv 0 (rows ibonds ! k) (alloc 1 (length (rows xyz)) deriv) = Inr out"
    and ret: "ret = returned deriv out" and d: "deriv = 0 \<or> deriv = 1 \<or> deriv = 2"
    by blast
  from out ret d atoms show "values_of ret = [norm3 u]"
    by (auto simp: bond_lengths_body_def getitem_resolve Let_def alloc_def returned_def u_def)
  show "jacobian_of ret =
       [(replicate (length (rows xyz)) zeros3)[m := vdiv u (norm3 u), n := vneg (vdiv u (norm3 u))]]"
    if "deriv \<ge> 1"
    using out ret d atoms that
    by (auto simp: bond_lengths_body_def getitem_resolve Let_def alloc_def returned_def set_row_def
          u_def)
  show "hessian_of ret =
       [blk_set (blk_set (blk_set (blk_set
          (replicate (length (rows xyz)) (replicate (length (rows xyz)) zeros33)) m n h)
          m m (mneg h)) n m h) n n (mneg h)]"
    if "deriv = 2"
    using out ret atoms that
    by (auto simp: bond_lengths_body_def getitem_resolve Let_def alloc_def returned_def set_row_def
          set_block_def u_def h_def)
qed

subsection \<open>Reading blocks and features\<close>

lemma square_replicate: "square N (replicate N (replicate N z))"
  by (simp add: square_def)

lemma nth_upd: "xs[i := x] ! j = (if i = j \<and> i < length xs then x else xs ! j)"
  by (cases "i < length xs") (simp_all add: nth_list_update list_update_beyond)

lemma square_blk_set: "square N Hi \<Longrightarrow> square N (blk_set Hi a b B)"
  by (auto simp: square_def blk_set_def nth_upd)

lemma blk_set_nth:
  "square N Hi \<Longrightarrow> a < N \<Longrightarrow> b < N \<Longrightarrow>
   blk_set Hi a b B ! a' ! b' = (if a' = a \<and> b' = b then B else Hi ! a' ! b')"
  by (auto simp: square_def blk_set_def nth_upd)

lemma feature_of_values: "values_of (feature_of ret k) = [values_of ret ! k]"
  by (cases ret) simp_all

lemma feature_of_jacobian:
  "evaluator arity msg body xyz idx deriv = Inr ret \<Longrightarrow> deriv \<ge> 1 \<Longrightarrow>
   jacobian_of (feature_of ret k) = [jacobian_of ret ! k]"
  by (auto simp: evaluator_def returned_def split: if_splits sum.splits)

lemma feature_of_hessian:
  "evaluator arity msg body xyz idx deriv = Inr ret \<Longrightarrow> deriv = 2 \<Longrightarrow>
   hessian_of (feature_of ret k) = [hessian_of ret ! k]"
  by (auto simp: evaluator_def returned_def split: if_splits sum.splits)

lemma outer3_minus_eye_eq: "outer3_minus_eye a b = msub (outer3 a b) eye3"
proof -
  have z: "x - 0 = x" for x :: double by (cases x) (simp_all add: zero_double_def)
  show ?thesis
    by (cases a; cases b) (simp add: outer3_minus_eye_def outer3_def msub_def mzip_def vzip_def eye3_def z)
qed

subsection \<open>\<open>bond_angles\<close> on one triple\<close>

lemma bond_angles_only_body:
  assumes run: "bond_angles xyz (only iangles k) deriv = Inr ret"
  obtains out where
    "bond_angles_body xyz deriv 0 (rows iangles ! k) (alloc 1 (length (rows xyz)) deriv) = Inr out"
    "ret = returned deriv out" "deriv = 0 \<or> deriv = 1 \<or> deriv = 2"
proof -
  from run have sh: "shape1 xyz = 3" "shape1 iangles = 3" "deriv = 0 \<or> deriv = 1 \<or> deriv = 2"
    by (auto simp: bond_angles_evaluator evaluator_only split: if_splits)
  with run that show ?thesis
    unfolding bond_angles_evaluator evaluator_only for_rows_single
    by (auto split: sum.splits)
qed

lemma bond_angles_only_atoms:
  assumes run: "bond_angles xyz (only iangles k) deriv = Inr ret"
  obtains m oa n where
    "resolve xyz (rows iangles ! k ! 0) = Some m" "resolve xyz (rows iangles ! k ! 1) = Some oa"
    "resolve xyz (rows iangles ! k ! 2) = Some n"
proof -
  from bond_angles_only_body [OF run] obtain out where
    "bond_angles_body xyz deriv 0 (rows iangles ! k) (alloc 1 (length (rows xyz)) deriv) = Inr out"
    by blast
  then show ?thesis using that
    by (auto simp: bond_angles_body_def getitem_resolve Let_def split: option.splits)
qed

lemma bond_angles_only_value:
  fixes xyz m oa n
  defines "u' \<equiv> vsub (position xyz m) (position xyz oa)"
    and "v' \<equiv> vsub (position xyz n) (position xyz oa)"
  assumes run: "bond_angles xyz (only iangles k) deriv = Inr ret"
    and atoms: "resolve xyz (rows iangles ! k ! 0) = Some m"
      "resolve xyz (rows iangles ! k ! 1) = Some oa" "resolve xyz (rows iangles ! k ! 2) = Some n"
  shows "norm3 u' * norm3 v' \<noteq> Fin 0"
    and "values_of ret = [dacos (dot3 u' v' / (norm3 u' * norm3 v'))]"
proof -
  from bond_angles_only_body [OF run] obtain out where
    out: "bond_angles_body xyz deriv 0 (rows iangles ! k) (alloc 1 (length (rows xyz)) deriv) = Inr out"
    and ret: "ret = returned deriv out" and d: "deriv = 0 \<or> deriv = 1 \<or> deriv = 2"
    by blast
  from out atoms show "norm3 u' * norm3 v' \<noteq> Fin 0"
    by (auto simp: bond_angles_body_def getitem_resolve Let_def cdiv_def u'_def v'_def
          split: if_splits)
  from out atoms ret d show "values_of ret = [dacos (dot3 u' v' / (norm3 u' * norm3 v'))]"
    by (auto simp: bond_angles_body_def getitem_resolve Let_def cdiv_def u'_def v'_def
          bond_angles_jacobian_def bond_angles_hessian_def alloc_def returned_def
          split: if_splits sum.splits prod.splits)
qed

lemma bond_angles_only_jacobian:
  fixes xyz m oa n
  defines "u' \<equiv> vsub (position xyz m) (position xyz oa)"
    and "v' \<equiv> vsub (position xyz n) (position xyz oa)"
  defines "u \<equiv> vdiv u' (norm3 u')" and "v \<equiv> vdiv v' (norm3 v')"
  defines "w \<equiv> vdiv (cross3 u v) (norm3 (cross3 u v))"
  defines "t0 \<equiv> vdiv (cross3 u w) (norm3 u')" and "t1 \<equiv> vdiv (cross3 w v) (norm3 v')"
  assumes run: "bond_angles xyz (only iangles k) deriv = Inr ret" and deriv: "deriv \<ge> 1"
    and atoms: "resolve xyz (rows iangles ! k ! 0) = Some m"
      "resolve xyz (rows iangles ! k ! 1) = Some oa" "resolve xyz (rows iangles ! k ! 2) = Some n"
  shows "\<not> dlt (norm3 (vadd u v)) (Fin (1 / 10 ^ 10))"
    and "\<not> dlt (norm3 (vsub u v)) (Fin (1 / 10 ^ 10))"
    and "jacobian_of ret =
           [(replicate (length (rows xyz)) zeros3)[m := t0, n := t1, oa := vneg (vadd t0 t1)]]"
proof -
  from bond_angles_only_body [OF run] obtain out where
    out: "bond_angles_body xyz deriv 0 (rows iangles ! k) (alloc 1 (length (rows xyz)) deriv) = Inr out"
    and ret: "ret = returned deriv out" and d: "deriv = 0 \<or> deriv = 1 \<or> deriv = 2"
    by blast
  from out atoms deriv
  show "\<not> dlt (norm3 (vadd u v)) (Fin (1 / 10 ^ 10))" "\<not> dlt (norm3 (vsub u v)) (Fin (1 / 10 ^ 10))"
    by (auto simp: bond_angles_body_def getitem_resolve Let_def cdiv_def u'_def v'_def u_def v_def
          bond_angles_jacobian_def split: if_splits sum.splits)
  from out atoms ret d deriv
  show "jacobian_of ret =
           [(replicate (length (rows xyz)) zeros3)[m := t0, n := t1, oa := vneg (vadd t0 t1)]]"
    by (auto simp: bond_angles_body_def getitem_resolve Let_def cdiv_def u'_def v'_def u_def v_def
          w_def t0_def t1_def
          bond_angles_jacobian_def bond_angles_hessian_def alloc_def returned_def set_row_def
          split: if_splits sum.splits prod.splits)
qed

subsection \<open>\<open>dihedral_angles\<close> on one quadruple\<close>

lemma dihedral_angles_only_body:
  assumes run: "dihedral_angles xyz (only idihedrals k) deriv = Inr ret"
  obtains out where
    "dihedral_angles_body xyz deriv 0 (rows idihedrals ! k) (alloc 1 (length (rows xyz)) deriv) = Inr out"
    "ret = returned deriv out" "deriv = 0 \<or> deriv = 1 \<or> deriv = 2"
proof -
  from run have sh: "shape1 xyz = 3" "shape1 idihedrals = 4" "deriv = 0 \<or> deriv = 1 \<or> deriv = 2"
    by (auto simp: dihedral_angles_evaluator evaluator_only split: if_splits)
  with run that show ?thesis
    unfolding dihedral_angles_evaluator evaluator_only for_rows_single
    by (auto split: sum.splits)
qed

lemma dihedral_angles_only_atoms:
  assumes run: "dihedral_angles xyz (only idihedrals k) deriv = Inr ret"
  obtains m oa p n where
    "resolve xyz (rows idihedrals ! k ! 0) = Some m" "resolve xyz (rows idihedrals ! k ! 1) = Some oa"
    "resolve xyz (rows idihedrals ! k ! 2) = Some p" "resolve xyz (rows idihedrals ! k ! 3) = Some n"
proof -
  from dihedral_angles_only_body [OF run] obtain out where
    "dihedral_angles_body xyz deriv 0 (rows idihedrals ! k) (alloc 1 (length (rows xyz)) deriv) = Inr out"
    by blast
  then show ?thesis using that
    by (auto simp: dihedral_angles_body_def getitem_resolve Let_def split: option.splits)
qed

lemma dihedral_angles_only_value:
  fixes xyz m oa p n
  defines "u \<equiv> vsub (position xyz m) (position xyz oa)"
    and "v \<equiv> vsub (position xyz n) (position xyz p)"
    and "w \<equiv> vsub (position xyz p) (position xyz oa)"
  assumes run: "dihedral_angles xyz (only idihedrals k) deriv = Inr ret"
    and atoms: "resolve xyz (rows idihedrals ! k ! 0) = Some m"
      "resolve xyz (rows idihedrals ! k ! 1) = Some oa"
      "resolve xyz (rows idihedrals ! k ! 2) = Some p" "resolve xyz (rows idihedrals ! k ! 3) = Some n"
  shows "values_of ret =
           [datan2 (dot3 u (cross3 v w) * norm3 w) (dot3 (cross3 v w) (cross3 u w))]"
proof -
  from dihedral_angles_only_body [OF run] obtain out where
    out: "dihedral_angles_body xyz deriv 0 (rows idihedrals ! k) (alloc 1 (length (rows xyz)) deriv) = Inr out"
    and ret: "ret = returned deriv out" and d: "deriv = 0 \<or> deriv = 1 \<or> deriv = 2"
    by blast
  from out atoms ret d show ?thesis
    by (auto simp: dihedral_angles_body_def getitem_resolve Let_def u_def v_def w_def
          alloc_def returned_def)
qed

lemma dihedral_jacobian_rows:
  assumes "deriv \<ge> 1"
  shows "\<exists>t1 t2 t3 t4. dihedral_jacobian deriv 0 km ko kp kn cu cv un vn wn du dv [Z] =
           [Z[km := t1, kn := vneg t2, ko := vsub (vadd (vneg t1) t3) t4,
              kp := vadd (vsub t2 t3) t4]]"
proof -
  obtain t1 t2 t3 t4 where "dihedral_terms cu cv un vn wn du dv = (t1, t2, t3, t4)"
    by (cases "dihedral_terms cu cv un vn wn du dv") auto
  with assms have "dihedral_jacobian deriv 0 km ko kp kn cu cv un vn wn du dv [Z] =
           [Z[km := t1, kn := vneg t2, ko := vsub (vadd (vneg t1) t3) t4,
              kp := vadd (vsub t2 t3) t4]]"
    by (simp add: dihedral_jacobian_def set_row_def)
  then show ?thesis by blast
qed

lemma dihedral_angles_only_derivs:
  fixes xyz m oa p n
  defines "u' \<equiv> vsub (position xyz m) (position xyz oa)"
    and "v' \<equiv> vsub (position xyz n) (position xyz p)"
    and "w' \<equiv> vsub (position xyz p) (position xyz oa)"
  defines "u \<equiv> vdiv u' (norm3 u')" and "v \<equiv> vdiv v' (norm3 v')" and "w \<equiv> vdiv w' (norm3 w')"
  defines "cross_vw \<equiv> vdiv (cross3 v' w') (norm3 v' * norm3 w')"
    and "cross_uw \<equiv> vdiv (cross3 u' w') (norm3 u' * norm3 w')"
  assumes run: "dihedral_angles xyz (only idihedrals k) deriv = Inr ret" and deriv: "deriv \<ge> 1"
    and atoms: "resolve xyz (rows idihedrals ! k ! 0) = Some m"
      "resolve xyz (rows idihedrals ! k ! 1) = Some oa"
      "resolve xyz (rows idihedrals ! k ! 2) = Some p" "resolve xyz (rows idihedrals ! k ! 3) = Some n"
  shows "jacobian_of ret =
           dihedral_jacobian deriv 0 m oa p n cross_uw cross_vw (norm3 u') (norm3 v') (norm3 w')
             (dot3 u w) (dot3 v w) [replicate (length (rows xyz)) zeros3]"
    and "deriv = 2 \<Longrightarrow> hessian_of ret =
           dihedral_hessian deriv 0 (c_int (rows idihedrals ! k ! 0), m)
             (c_int (rows idihedrals ! k ! 1), oa) (c_int (rows idihedrals ! k ! 2), p)
             (c_int (rows idihedrals ! k ! 3), n) u v w cross_uw cross_vw
             (norm3 u') (norm3 v') (norm3 w') (dot3 u w) (dot3 v w)
             [replicate (length (rows xyz)) (replicate (length (rows xyz)) zeros33)]"
proof -
  from dihedral_angles_only_body [OF run] obtain out where
    out: "dihedral_angles_body xyz deriv 0 (rows idihedrals ! k) (alloc 1 (length (rows xyz)) deriv) = Inr out"
    and ret: "ret = returned deriv out" and d: "deriv = 0 \<or> deriv = 1 \<or> deriv = 2"
    by blast
  from out atoms ret d deriv
  show "jacobian_of ret =
           dihedral_jacobian deriv 0 m oa p n cross_uw cross_vw (norm3 u') (norm3 v') (norm3 w')
             (dot3 u w) (dot3 v w) [replicate (length (rows xyz)) zeros3]"
    by (auto simp: dihedral_angles_body_def getitem_resolve Let_def alloc_def returned_def
          u'_def v'_def w'_def u_def v_def w_def cross_vw_def cross_uw_def)
  assume "deriv = 2"
  with out atoms ret
  show "hessian_of ret =
           dihedral_hessian deriv 0 (c_int (rows idihedrals ! k ! 0), m)
             (c_int (rows idihedrals ! k ! 1), oa) (c_int (rows idihedrals ! k ! 2), p)
             (c_int (rows idihedrals ! k ! 3), n) u v w cross_uw cross_vw
             (norm3 u') (norm3 v') (norm3 w') (dot3 u w) (dot3 v w)
             [replicate (length (rows xyz)) (replicate (length (rows xyz)) zeros33)]"
    by (auto simp: dihedral_angles_body_def getitem_resolve Let_def alloc_def returned_def
          u'_def v'_def w'_def u_def v_def w_def cross_vw_def cross_uw_def)
qed

lemma dihedral_angles_only_jacobian:
  assumes run: "dihedral_angles xyz (only idihedrals k) deriv = Inr ret" and deriv: "deriv \<ge> 1"
    and atoms: "resolve xyz (rows idihedrals ! k ! 0) = Some m"
      "resolve xyz (rows idihedrals ! k ! 1) = Some oa"
      "resolve xyz (rows idihedrals ! k ! 2) = Some p" "resolve xyz (rows idihedrals ! k ! 3) = Some n"
  shows "\<exists>t1 t2 t3 t4. jacobian_of ret =
           [(replicate (length (rows xyz)) zeros3)
              [m := t1, n := vneg t2, oa := vsub (vadd (vneg t1) t3) t4,
               p := vadd (vsub t2 t3) t4]]"
  unfolding dihedral_angles_only_derivs(1) [OF run deriv atoms]
  using deriv by (rule dihedral_jacobian_rows)

subsection \<open>The Hessian blocks of a bond length\<close>

text \<open>
  C8. For a bond pair \<open>(m, n)\<close> of distinct atoms at distinct positions, evaluated at
  order 2, with \<open>u = x[m] - x[n]\<close> and the unit vector \<open>u / |u|\<close>: the Hessian block
  \<open>[m, :, n, :]\<close> is \<open>(outer(u/|u|, u/|u|) - I) / |u|\<close>, the block \<open>[n, :, m, :]\<close> is
  the same matrix, and the diagonal blocks \<open>[m, :, m, :]\<close> and \<open>[n, :, n, :]\<close> are its
  negation.
\<close>

theorem bond_hessian_blocks:
  fixes xyz ibonds ret f m n
  defines "u \<equiv> vsub (position xyz m) (position xyz n)"
  defines "T \<equiv> mdiv (msub (outer3 (vdiv u (norm3 u)) (vdiv u (norm3 u))) eye3) (norm3 u)"
  assumes run: "bond_lengths xyz ibonds 2 = Inr ret" and f: "f < length (rows ibonds)"
    and m: "resolve xyz (rows ibonds ! f ! 0) = Some m"
    and n: "resolve xyz (rows ibonds ! f ! 1) = Some n"
    and distinct: "m \<noteq> n" and apart: "norm3 u \<noteq> 0"
  shows "hessian_of ret ! f ! m ! n = T \<and> hessian_of ret ! f ! n ! m = T \<and>
         hessian_of ret ! f ! m ! m = mneg T \<and> hessian_of ret ! f ! n ! n = mneg T"
proof -
  from run have ev: "evaluator 2 ''ibonds must have 2 columns.'' (bond_lengths_body xyz 2) xyz ibonds 2 = Inr ret"
    by (simp add: bond_lengths_evaluator)
  from evaluator_feature [OF bond_lengths_local ev f]
  have one: "bond_lengths xyz (only ibonds f) 2 = Inr (feature_of ret f)"
    by (simp add: bond_lengths_evaluator)
  define Z where "Z = replicate (length (rows xyz)) (replicate (length (rows xyz)) zeros33)"
  define h where "h = mdiv (outer3_minus_eye (vdiv u (norm3 u)) (vdiv u (norm3 u))) (norm3 u)"
  from bond_lengths_only(3) [OF one m n]
  have "hessian_of (feature_of ret f) =
          [blk_set (blk_set (blk_set (blk_set Z m n h) m m (mneg h)) n m h) n n (mneg h)]"
    by (simp add: u_def Z_def h_def)
  then have H: "hessian_of ret ! f =
          blk_set (blk_set (blk_set (blk_set Z m n h) m m (mneg h)) n m h) n n (mneg h)"
    by (simp add: feature_of_hessian [OF ev])
  have hT: "h = T" by (simp add: h_def T_def outer3_minus_eye_eq)
  have sq: "square (length (rows xyz)) Z" by (simp add: Z_def square_replicate)
  have lt: "m < length (rows xyz)" "n < length (rows xyz)"
    using m n by (auto dest: resolve_less)
  show ?thesis
    using distinct lt
    by (simp add: H hT blk_set_nth [where N = "length (rows xyz)"] sq square_blk_set)
qed


theorem bond_hessian_blocks_witness:
  "\<exists>ret. bond_lengths test_xyz test_ibonds 2 = Inr ret \<and>
     resolve test_xyz (rows test_ibonds ! 0 ! 0) = Some 0 \<and>
     resolve test_xyz (rows test_ibonds ! 0 ! 1) = Some 1 \<and>
     norm3 (vsub (position test_xyz 0) (position test_xyz 1)) = Fin 1 \<and>
     hessian_of ret ! 0 ! 0 ! 1 = ((Fin (- 1), Fin 0, Fin 0), (Fin 0, Fin 0, Fin 0), (Fin 0, Fin 0, Fin (- 1))) \<and>
     hessian_of ret ! 0 ! 1 ! 0 = ((Fin (- 1), Fin 0, Fin 0), (Fin 0, Fin 0, Fin 0), (Fin 0, Fin 0, Fin (- 1))) \<and>
     hessian_of ret ! 0 ! 0 ! 0 = ((Fin 1, Fin 0, Fin 0), (Fin 0, Fin 0, Fin 0), (Fin 0, Fin 0, Fin 1)) \<and>
     hessian_of ret ! 0 ! 1 ! 1 = ((Fin 1, Fin 0, Fin 0), (Fin 0, Fin 0, Fin 0), (Fin 0, Fin 0, Fin 1))"
proof -
  have "\<exists>ret. bond_lengths test_xyz test_ibonds 2 = Inr ret"
    by (simp add: bond_lengths_def bond_lengths_body_def test_defs kernel_defs array_defs Let_def)
  then obtain ret where run: "bond_lengths test_xyz test_ibonds 2 = Inr ret" ..
  have f: "0 < length (rows test_ibonds)" by (simp add: test_defs)
  have m: "resolve test_xyz (rows test_ibonds ! 0 ! 0) = Some 0"
    and n: "resolve test_xyz (rows test_ibonds ! 0 ! 1) = Some 1"
    by (simp_all add: test_defs array_defs)
  have u: "norm3 (vsub (position test_xyz 0) (position test_xyz 1)) = Fin 1"
    by (simp add: test_defs array_defs kernel_defs)
  from bond_hessian_blocks [OF run f m n] u m n run show ?thesis
    by (simp add: test_defs array_defs kernel_defs)
qed

subsection \<open>Finite vectors and \<open>atan2\<close>\<close>


lemma finite3D: "finite3 v \<Longrightarrow> \<exists>a b c. v = (Fin a, Fin b, Fin c)"
  by (cases v) (auto simp: finite3_def intro: double.exhaust)

lemma norm3_fin [simp]: "norm3 (Fin a, Fin b, Fin c) = Fin (sqrt (a * a + b * b + c * c))"
proof -
  have "0 \<le> a * a + b * b + c * c" by (intro add_nonneg_nonneg zero_le_square)
  then show ?thesis by (simp add: norm3_def not_less)
qed

lemma vsub_fin [simp]: "vsub (Fin a, Fin b, Fin c) (Fin x, Fin y, Fin z) = (Fin (a - x), Fin (b - y), Fin (c - z))"
  by (simp add: vsub_def vzip_def)

lemma dot3_fin [simp]: "dot3 (Fin a, Fin b, Fin c) (Fin x, Fin y, Fin z) = Fin (a * x + b * y + c * z)"
  by (simp add: dot3_def)

lemma cross3_fin [simp]:
  "cross3 (Fin a, Fin b, Fin c) (Fin x, Fin y, Fin z) =
     (Fin (b * z - c * y), Fin (c * x - a * z), Fin (a * y - b * x))"
  by (simp add: cross3_def)

subsection \<open>The values do not depend on the order\<close>

lemma values_eqI:
  assumes "length (values_of a) = n" "length (values_of b) = n"
    and "\<And>k. k < n \<Longrightarrow> values_of (feature_of a k) = values_of (feature_of b k)"
  shows "values_of a = values_of b"
proof (rule nth_equalityI)
  show "length (values_of a) = length (values_of b)" using assms(1,2) by simp
  fix k assume "k < length (values_of a)"
  with assms(1) have "k < n" by simp
  from assms(3) [OF this] show "values_of a ! k = values_of b ! k"
    by (simp add: feature_of_values)
qed

lemma bond_lengths_values_order:
  assumes a: "bond_lengths xyz ibonds 0 = Inr r0" and b: "bond_lengths xyz ibonds d = Inr rd"
  shows "values_of rd = values_of r0"
proof (rule values_eqI)
  let ?msg = "''ibonds must have 2 columns.''"
  from a have ea: "evaluator 2 ?msg (bond_lengths_body xyz 0) xyz ibonds 0 = Inr r0"
    by (simp add: bond_lengths_evaluator)
  from b have eb: "evaluator 2 ?msg (bond_lengths_body xyz d) xyz ibonds d = Inr rd"
    by (simp add: bond_lengths_evaluator)
  show "length (values_of rd) = length (rows ibonds)"
    by (rule evaluator_length [OF bond_lengths_local eb])
  show "length (values_of r0) = length (rows ibonds)"
    by (rule evaluator_length [OF bond_lengths_local ea])
  fix k assume k: "k < length (rows ibonds)"
  from evaluator_feature [OF bond_lengths_local ea k]
  have oa: "bond_lengths xyz (only ibonds k) 0 = Inr (feature_of r0 k)"
    by (simp add: bond_lengths_evaluator)
  from evaluator_feature [OF bond_lengths_local eb k]
  have ob: "bond_lengths xyz (only ibonds k) d = Inr (feature_of rd k)"
    by (simp add: bond_lengths_evaluator)
  from bond_lengths_only_atoms [OF oa] obtain m n where
    atoms: "resolve xyz (rows ibonds ! k ! 0) = Some m" "resolve xyz (rows ibonds ! k ! 1) = Some n"
    by blast
  show "values_of (feature_of rd k) = values_of (feature_of r0 k)"
    by (simp add: bond_lengths_only(1) [OF oa atoms] bond_lengths_only(1) [OF ob atoms])
qed

lemma bond_angles_values_order:
  assumes a: "bond_angles xyz iangles 0 = Inr r0" and b: "bond_angles xyz iangles d = Inr rd"
  shows "values_of rd = values_of r0"
proof (rule values_eqI)
  let ?msg = "''iangles must have 3 columns.''"
  from a have ea: "evaluator 3 ?msg (bond_angles_body xyz 0) xyz iangles 0 = Inr r0"
    by (simp add: bond_angles_evaluator)
  from b have eb: "evaluator 3 ?msg (bond_angles_body xyz d) xyz iangles d = Inr rd"
    by (simp add: bond_angles_evaluator)
  show "length (values_of rd) = length (rows iangles)"
    by (rule evaluator_length [OF bond_angles_local eb])
  show "length (values_of r0) = length (rows iangles)"
    by (rule evaluator_length [OF bond_angles_local ea])
  fix k assume k: "k < length (rows iangles)"
  from evaluator_feature [OF bond_angles_local ea k]
  have oa: "bond_angles xyz (only iangles k) 0 = Inr (feature_of r0 k)"
    by (simp add: bond_angles_evaluator)
  from evaluator_feature [OF bond_angles_local eb k]
  have ob: "bond_angles xyz (only iangles k) d = Inr (feature_of rd k)"
    by (simp add: bond_angles_evaluator)
  from bond_angles_only_atoms [OF oa] obtain m oo n where
    atoms: "resolve xyz (rows iangles ! k ! 0) = Some m" "resolve xyz (rows iangles ! k ! 1) = Some oo"
      "resolve xyz (rows iangles ! k ! 2) = Some n" by blast
  show "values_of (feature_of rd k) = values_of (feature_of r0 k)"
    by (simp add: bond_angles_only_value(2) [OF oa atoms] bond_angles_only_value(2) [OF ob atoms])
qed

lemma dihedral_angles_values_order:
  assumes a: "dihedral_angles xyz idihedrals 0 = Inr r0"
    and b: "dihedral_angles xyz idihedrals d = Inr rd"
  shows "values_of rd = values_of r0"
proof (rule values_eqI)
  let ?msg = "''idihedrals must have 4 columns.''"
  from a have ea: "evaluator 4 ?msg (dihedral_angles_body xyz 0) xyz idihedrals 0 = Inr r0"
    by (simp add: dihedral_angles_evaluator)
  from b have eb: "evaluator 4 ?msg (dihedral_angles_body xyz d) xyz idihedrals d = Inr rd"
    by (simp add: dihedral_angles_evaluator)
  show "length (values_of rd) = length (rows idihedrals)"
    by (rule evaluator_length [OF dihedral_angles_local eb])
  show "length (values_of r0) = length (rows idihedrals)"
    by (rule evaluator_length [OF dihedral_angles_local ea])
  fix k assume k: "k < length (rows idihedrals)"
  from evaluator_feature [OF dihedral_angles_local ea k]
  have oa: "dihedral_angles xyz (only idihedrals k) 0 = Inr (feature_of r0 k)"
    by (simp add: dihedral_angles_evaluator)
  from evaluator_feature [OF dihedral_angles_local eb k]
  have ob: "dihedral_angles xyz (only idihedrals k) d = Inr (feature_of rd k)"
    by (simp add: dihedral_angles_evaluator)
  from dihedral_angles_only_atoms [OF oa] obtain m oo p n where
    atoms: "resolve xyz (rows idihedrals ! k ! 0) = Some m"
      "resolve xyz (rows idihedrals ! k ! 1) = Some oo"
      "resolve xyz (rows idihedrals ! k ! 2) = Some p"
      "resolve xyz (rows idihedrals ! k ! 3) = Some n" by blast
  show "values_of (feature_of rd k) = values_of (feature_of r0 k)"
    by (simp add: dihedral_angles_only_value [OF oa atoms] dihedral_angles_only_value [OF ob atoms])
qed

text \<open>
  C9. On the same frame and index array, the values an evaluator returns at order 0 and the
  values it returns at order 1 or 2 are the same list, whenever both calls return: the value
  of a feature is computed by the same expression at every order. This holds for the three
  evaluators.
\<close>

theorem values_identical_at_every_order:
  "(bond_lengths xyz ibonds 0 = Inr b0 \<and> bond_lengths xyz ibonds d = Inr bd
      \<longrightarrow> values_of bd = values_of b0) \<and>
   (bond_angles xyz iangles 0 = Inr a0 \<and> bond_angles xyz iangles d = Inr ad
      \<longrightarrow> values_of ad = values_of a0) \<and>
   (dihedral_angles xyz idihedrals 0 = Inr t0 \<and> dihedral_angles xyz idihedrals d = Inr td
      \<longrightarrow> values_of td = values_of t0)"
  using bond_lengths_values_order bond_angles_values_order dihedral_angles_values_order
  by blast

theorem values_identical_at_every_order_witness:
  "\<exists>b0 b1 a0 a1 t0 t1.
     bond_lengths test_xyz test_ibonds 0 = Inr b0 \<and> bond_lengths test_xyz test_ibonds 1 = Inr b1 \<and>
     values_of b1 = values_of b0 \<and>
     bond_angles test_xyz test_iangles 0 = Inr a0 \<and> bond_angles test_xyz test_iangles 1 = Inr a1 \<and>
     values_of a1 = values_of a0 \<and>
     dihedral_angles test_xyz test_idihedrals 0 = Inr t0 \<and>
     dihedral_angles test_xyz test_idihedrals 1 = Inr t1 \<and>
     values_of t1 = values_of t0"
proof -
  have "\<exists>r. bond_lengths test_xyz test_ibonds 0 = Inr r" "\<exists>r. bond_lengths test_xyz test_ibonds 1 = Inr r"
    by (simp_all add: bond_lengths_defs test_defs kernel_defs array_defs Let_def)
  then obtain b0 b1 where b: "bond_lengths test_xyz test_ibonds 0 = Inr b0"
    "bond_lengths test_xyz test_ibonds 1 = Inr b1" by blast
  have "\<exists>r. bond_angles test_xyz test_iangles 0 = Inr r" "\<exists>r. bond_angles test_xyz test_iangles 1 = Inr r"
    by (simp_all add: bond_angles_defs test_defs kernel_defs array_defs Let_def)
  then obtain a0 a1 where a: "bond_angles test_xyz test_iangles 0 = Inr a0"
    "bond_angles test_xyz test_iangles 1 = Inr a1" by blast
  have "\<exists>r. dihedral_angles test_xyz test_idihedrals 0 = Inr r"
    "\<exists>r. dihedral_angles test_xyz test_idihedrals 1 = Inr r"
    by (simp_all add: dihedral_angles_defs test_defs kernel_defs array_defs Let_def)
  then obtain t0 t1 where t: "dihedral_angles test_xyz test_idihedrals 0 = Inr t0"
    "dihedral_angles test_xyz test_idihedrals 1 = Inr t1" by blast
  from values_identical_at_every_order
    [of test_xyz test_ibonds b0 1 b1 test_iangles a0 a1 test_idihedrals t0 t1] a b t
  show ?thesis by blast
qed

subsection \<open>Index values\<close>










lemma bond_lengths_only_ok:
  assumes "shape1 xyz = 3" "shape1 ibonds = 2" "deriv = 0 \<or> deriv = 1 \<or> deriv = 2"
    and "resolve xyz (rows ibonds ! k ! 0) \<noteq> None" "resolve xyz (rows ibonds ! k ! 1) \<noteq> None"
  shows "\<exists>s. bond_lengths xyz (only ibonds k) deriv = Inr s"
  using assms unfolding bond_lengths_evaluator evaluator_only for_rows_single
  by (auto simp: bond_lengths_body_def getitem_resolve Let_def split: option.splits sum.splits)

lemma bond_lengths_succeeds:
  assumes sh: "shape1 xyz = 3" "shape1 ibonds = 2" "deriv = 0 \<or> deriv = 1 \<or> deriv = 2"
    and idx: "\<And>k. k < length (rows ibonds) \<Longrightarrow>
      resolve xyz (rows ibonds ! k ! 0) \<noteq> None \<and> resolve xyz (rows ibonds ! k ! 1) \<noteq> None"
  shows "\<exists>ret. bond_lengths xyz ibonds deriv = Inr ret"
  unfolding bond_lengths_evaluator
proof (rule evaluator_succeeds [OF bond_lengths_local _ sh])
  fix k assume "k < length (rows ibonds)"
  from idx [OF this] bond_lengths_only_ok [OF sh, of k]
  show "\<exists>s. evaluator 2 ''ibonds must have 2 columns.'' (bond_lengths_body xyz deriv) xyz
              (only ibonds k) deriv = Inr s"
    by (simp add: bond_lengths_evaluator)
qed

lemma dihedral_angles_only_ok:
  assumes "shape1 xyz = 3" "shape1 idihedrals = 4" "deriv = 0 \<or> deriv = 1 \<or> deriv = 2"
    and "resolve xyz (rows idihedrals ! k ! 0) \<noteq> None" "resolve xyz (rows idihedrals ! k ! 1) \<noteq> None"
    and "resolve xyz (rows idihedrals ! k ! 2) \<noteq> None" "resolve xyz (rows idihedrals ! k ! 3) \<noteq> None"
  shows "\<exists>s. dihedral_angles xyz (only idihedrals k) deriv = Inr s"
  using assms unfolding dihedral_angles_evaluator evaluator_only for_rows_single
  by (auto simp: dihedral_angles_body_def getitem_resolve Let_def split: option.splits sum.splits)


lemma dihedral_angles_succeeds:
  assumes sh: "shape1 xyz = 3" "shape1 idihedrals = 4" "deriv = 0 \<or> deriv = 1 \<or> deriv = 2"
    and idx: "\<And>k. k < length (rows idihedrals) \<Longrightarrow>
      resolve xyz (rows idihedrals ! k ! 0) \<noteq> None \<and> resolve xyz (rows idihedrals ! k ! 1) \<noteq> None \<and>
      resolve xyz (rows idihedrals ! k ! 2) \<noteq> None \<and> resolve xyz (rows idihedrals ! k ! 3) \<noteq> None"
  shows "\<exists>ret. dihedral_angles xyz idihedrals deriv = Inr ret"
  unfolding dihedral_angles_evaluator
proof (rule evaluator_succeeds [OF dihedral_angles_local _ sh])
  fix k assume "k < length (rows idihedrals)"
  from idx [OF this] dihedral_angles_only_ok [OF sh, of k]
  show "\<exists>s. evaluator 4 ''idihedrals must have 4 columns.'' (dihedral_angles_body xyz deriv) xyz
              (only idihedrals k) deriv = Inr s"
    by (simp add: dihedral_angles_evaluator)
qed














subsection \<open>The value of a dihedral angle\<close>








subsection \<open>Coincident atoms in a bond\<close>

lemma coincident_unit:
  assumes "position xyz m = position xyz n" and "finite3 (position xyz n)"
  shows "norm3 (vsub (position xyz m) (position xyz n)) = Fin 0"
    and "vdiv (vsub (position xyz m) (position xyz n)) (norm3 (vsub (position xyz m) (position xyz n)))
          = (NonFin, NonFin, NonFin)"
proof -
  obtain a b c where p: "position xyz n = (Fin a, Fin b, Fin c)"
    using finite3D [OF assms(2)] by blast
  with assms show "norm3 (vsub (position xyz m) (position xyz n)) = Fin 0" by simp
  with assms p
  show "vdiv (vsub (position xyz m) (position xyz n)) (norm3 (vsub (position xyz m) (position xyz n)))
          = (NonFin, NonFin, NonFin)"
    by (simp add: vdiv_def vmap_def)
qed

lemma nonfinite_unit:
  assumes "\<not> finite3 a"
  shows "norm3 (vsub b a) = NonFin"
    and "vdiv (vsub b a) (norm3 (vsub b a)) = (NonFin, NonFin, NonFin)"
proof -
  from assms show n: "norm3 (vsub b a) = NonFin"
    by (cases a; cases b) (auto simp: finite3_def vsub_def vzip_def norm3_def)
  show "vdiv (vsub b a) (norm3 (vsub b a)) = (NonFin, NonFin, NonFin)"
    unfolding n by (cases "vsub b a") (simp add: vdiv_def vmap_def)
qed

text \<open>
  C5, as the code has it. \<open>bond_lengths\<close> has no test for coincident atoms and its
  divisions by the norm are numpy divisions, which do not raise. When the column counts and
  the order are valid and every index is within \<open>[-n_atoms, n_atoms)\<close>, the call returns;
  for a pair whose two positions are the same, the value is 0 (NaN when the position holds
  a NaN) and, at order 1 or 2, the Jacobian rows of the two atoms are non-finite (NaN).
\<close>

theorem coincident_bond_not_rejected:
  assumes sh: "shape1 xyz = 3" "shape1 ibonds = 2" and d: "deriv = 0 \<or> deriv = 1 \<or> deriv = 2"
    and idx: "\<forall>j < length (rows ibonds).
      resolve xyz (rows ibonds ! j ! 0) \<noteq> None \<and> resolve xyz (rows ibonds ! j ! 1) \<noteq> None"
    and k: "k < length (rows ibonds)"
    and m: "resolve xyz (rows ibonds ! k ! 0) = Some m"
    and n: "resolve xyz (rows ibonds ! k ! 1) = Some n"
    and coincide: "position xyz m = position xyz n"
  shows "\<exists>ret. bond_lengths xyz ibonds deriv = Inr ret \<and>
           values_of ret ! k = (if finite3 (position xyz n) then Fin 0 else NonFin) \<and>
           (deriv \<ge> 1 \<longrightarrow> jacobian_of ret ! k ! m = (NonFin, NonFin, NonFin) \<and>
                          jacobian_of ret ! k ! n = (NonFin, NonFin, NonFin))"
proof -
  let ?u = "vsub (position xyz m) (position xyz n)"
  from bond_lengths_succeeds [OF sh d] idx obtain ret where
    run: "bond_lengths xyz ibonds deriv = Inr ret" by blast
  then have ev: "evaluator 2 ''ibonds must have 2 columns.'' (bond_lengths_body xyz deriv)
      xyz ibonds deriv = Inr ret"
    by (simp add: bond_lengths_evaluator)
  from evaluator_feature [OF bond_lengths_local ev k]
  have one: "bond_lengths xyz (only ibonds k) deriv = Inr (feature_of ret k)"
    by (simp add: bond_lengths_evaluator)
  have lt: "m < length (rows xyz)" "n < length (rows xyz)"
    using m n by (auto dest: resolve_less)
  have norm: "norm3 ?u = (if finite3 (position xyz n) then Fin 0 else NonFin)"
    using coincident_unit(1) [OF coincide] nonfinite_unit(1) [of "position xyz n" "position xyz m"]
    by simp
  have unit: "vdiv ?u (norm3 ?u) = (NonFin, NonFin, NonFin)"
    using coincident_unit(2) [OF coincide] nonfinite_unit(2) [of "position xyz n" "position xyz m"]
    by blast
  have val: "values_of (feature_of ret k) = [if finite3 (position xyz n) then Fin 0 else NonFin]"
    by (simp only: bond_lengths_only(1) [OF one m n] norm)
  have jac: "jacobian_of (feature_of ret k) =
      [(replicate (length (rows xyz)) zeros3)[m := (NonFin, NonFin, NonFin),
         n := vneg (NonFin, NonFin, NonFin)]]" if "deriv \<ge> 1"
    by (simp only: bond_lengths_only(2) [OF one m n that] unit)
  from val have "values_of ret ! k = (if finite3 (position xyz n) then Fin 0 else NonFin)"
    by (simp add: feature_of_values)
  moreover have "jacobian_of ret ! k ! m = (NonFin, NonFin, NonFin) \<and>
                 jacobian_of ret ! k ! n = (NonFin, NonFin, NonFin)" if "deriv \<ge> 1"
    using jac [OF that] lt feature_of_jacobian [OF ev that, of k]
    by (simp add: nth_upd vneg_def vmap_def)
  ultimately show ?thesis using run by blast
qed

theorem coincident_bond_not_rejected_witness:
  "(\<exists>ret. bond_lengths \<lparr>shape1 = 3, rows = [[0, 0, 0], [0, 0, 0]]\<rparr> \<lparr>shape1 = 2, rows = [[0, 1]]\<rparr> 2
            = Inr ret \<and>
          values_of ret ! 0 = Fin 0 \<and> jacobian_of ret ! 0 ! 0 = (NonFin, NonFin, NonFin) \<and>
          jacobian_of ret ! 0 ! 1 = (NonFin, NonFin, NonFin)) \<and>
   (\<exists>ret. bond_lengths \<lparr>shape1 = 3, rows = [[NonFin, 0, 0], [NonFin, 0, 0]]\<rparr>
             \<lparr>shape1 = 2, rows = [[0, 1]]\<rparr> 1 = Inr ret \<and>
          values_of ret ! 0 = NonFin \<and> jacobian_of ret ! 0 ! 0 = (NonFin, NonFin, NonFin) \<and>
          jacobian_of ret ! 0 ! 1 = (NonFin, NonFin, NonFin))"
  using coincident_bond_not_rejected
    [of "\<lparr>shape1 = 3, rows = [[0, 0, 0], [0, 0, 0]]\<rparr>" "\<lparr>shape1 = 2, rows = [[0, 1]]\<rparr>" 2 0 0 1]
    coincident_bond_not_rejected
    [of "\<lparr>shape1 = 3, rows = [[NonFin, 0, 0], [NonFin, 0, 0]]\<rparr>" "\<lparr>shape1 = 2, rows = [[0, 1]]\<rparr>" 1 0 0 1]
  by (auto simp: array_defs finite3_def zero_double_def)

theorem coincident_bond_counterexample:
  "bond_lengths \<lparr>shape1 = 3, rows = [[0, 0, 0], [0, 0, 0]]\<rparr> \<lparr>shape1 = 2, rows = [[0, 1]]\<rparr> 1 =
     Inr (Ret1 [Fin 0] [[(NonFin, NonFin, NonFin), (NonFin, NonFin, NonFin)]])"
  by (simp add: bond_lengths_defs kernel_defs array_defs Let_def)

subsection \<open>Finite vectors\<close>

lemma vdiv_fin:
  "s \<noteq> 0 \<Longrightarrow> vdiv (Fin a, Fin b, Fin c) (Fin s) = (Fin (a / s), Fin (b / s), Fin (c / s))"
  by (simp add: vdiv_def vmap_def)

lemma vadd_fin [simp]: "vadd (Fin a, Fin b, Fin c) (Fin x, Fin y, Fin z) = (Fin (a + x), Fin (b + y), Fin (c + z))"
  by (simp add: vadd_def vzip_def)

lemma vneg_fin [simp]: "vneg (Fin a, Fin b, Fin c) = (Fin (- a), Fin (- b), Fin (- c))"
  by (simp add: vneg_def vmap_def)

subsection \<open>The rows of a Jacobian and their sum\<close>












subsection \<open>Sparsity of the derivative arrays\<close>

lemma tuple_atoms_2: "tuple_atoms xyz 2 r = [resolve xyz (r ! 0), resolve xyz (r ! 1)]"
  by (simp add: tuple_atoms_def eval_nat_numeral)

lemma tuple_atoms_3:
  "tuple_atoms xyz 3 r = [resolve xyz (r ! 0), resolve xyz (r ! 1), resolve xyz (r ! 2)]"
  by (simp add: tuple_atoms_def eval_nat_numeral)

lemma tuple_atoms_4:
  "tuple_atoms xyz 4 r =
     [resolve xyz (r ! 0), resolve xyz (r ! 1), resolve xyz (r ! 2), resolve xyz (r ! 3)]"
  by (simp add: tuple_atoms_def eval_nat_numeral)

lemma blk_set_other: "(a, b) \<noteq> (ka, kb) \<Longrightarrow> blk_set X ka kb B ! a ! b = X ! a ! b"
  by (auto simp: blk_set_def nth_upd)

lemma foldl_untouched:
  assumes step: "\<And>X p. \<exists>Y. f [X] p = [Y] \<and> (target p \<noteq> (a, b) \<longrightarrow> Y ! a ! b = X ! a ! b)"
  shows "(a, b) \<notin> target ` set ps \<Longrightarrow> \<exists>Y. foldl f [X] ps = [Y] \<and> Y ! a ! b = X ! a ! b"
proof (induction ps arbitrary: X)
  case Nil
  then show ?case by simp
next
  case (Cons p ps)
  from step [of X p] Cons.prems obtain Y where Y: "f [X] p = [Y]" "Y ! a ! b = X ! a ! b"
    by auto
  from Cons.IH [of Y] Cons.prems obtain Y' where "foldl f [Y] ps = [Y']" "Y' ! a ! b = Y ! a ! b"
    by auto
  with Y show ?case by simp
qed

lemma bond_angles_pair_step:
  "\<exists>Y. bond_angles_pair m n oa t1 t2 t3 t4 0 [X] p = [Y] \<and>
       (target p \<noteq> (a, b) \<longrightarrow> Y ! a ! b = X ! a ! b)"
  by (cases p) (auto simp: bond_angles_pair_def Let_def add_if_single target_def blk_set_other
        split: prod.splits)

lemma dihedral_pair_step:
  "\<exists>Y. dihedral_pair factor 0 [X] p = [Y] \<and> (target p \<noteq> (a, b) \<longrightarrow> Y ! a ! b = X ! a ! b)"
  by (cases p) (auto simp: dihedral_pair_def set_block_single target_def blk_set_other
        split: prod.splits)

lemma target_atom_pairs: "target ` set (atom_pairs atoms) = set (map snd atoms) \<times> set (map snd atoms)"
  by (auto simp: atom_pairs_def target_def image_iff) force+



lemma zero_block: "replicate N (replicate N zeros33) ! a ! b = zeros33" if "a < N" "b < N"
  using that by simp

lemma bond_lengths_sparse:
  assumes run: "bond_lengths xyz ibonds deriv = Inr ret" and f: "f < length (rows ibonds)"
    and a: "a < length (rows xyz)" and b: "b < length (rows xyz)"
    and out: "Some a \<notin> set (tuple_atoms xyz 2 (rows ibonds ! f))"
  shows "deriv \<ge> 1 \<Longrightarrow> jacobian_of ret ! f ! a = zeros3"
    and "deriv = 2 \<Longrightarrow> hessian_of ret ! f ! a ! b = zeros33 \<and> hessian_of ret ! f ! b ! a = zeros33"
proof -
  from run have ev: "evaluator 2 ''ibonds must have 2 columns.'' (bond_lengths_body xyz deriv)
      xyz ibonds deriv = Inr ret"
    by (simp add: bond_lengths_evaluator)
  from evaluator_feature [OF bond_lengths_local ev f]
  have one: "bond_lengths xyz (only ibonds f) deriv = Inr (feature_of ret f)"
    by (simp add: bond_lengths_evaluator)
  from bond_lengths_only_atoms [OF one] obtain m n where
    atoms: "resolve xyz (rows ibonds ! f ! 0) = Some m" "resolve xyz (rows ibonds ! f ! 1) = Some n"
    by blast
  with out have ne: "a \<noteq> m" "a \<noteq> n" by (auto simp: tuple_atoms_2)
  show "jacobian_of ret ! f ! a = zeros3" if "deriv \<ge> 1"
    using bond_lengths_only(2) [OF one atoms that] ne a
    by (simp add: feature_of_jacobian [OF ev that] nth_upd)
  show "hessian_of ret ! f ! a ! b = zeros33 \<and> hessian_of ret ! f ! b ! a = zeros33" if "deriv = 2"
    using bond_lengths_only(3) [OF one atoms that] ne a b
    by (simp add: feature_of_hessian [OF ev that] blk_set_other)
qed



lemma outer_jac_zero:
  assumes a: "a < length Ji" and b: "b < length Ji" and z: "Ji ! a = zeros3"
    and fin: "Ji ! b = (Fin y0, Fin y1, Fin y2)"
  shows "outer_jac (Fin q) Ji ! a ! b = zeros33" and "outer_jac (Fin q) Ji ! b ! a = zeros33"
proof -
  have "smulm (Fin q) (outer3 zeros3 (Fin y0, Fin y1, Fin y2)) = zeros33"
    by (simp add: outer3_def smulm_def mmap_def vmap_def zeros3_def zeros33_def zero_double_def)
  with a b z fin show "outer_jac (Fin q) Ji ! a ! b = zeros33"
    by (simp add: outer_jac_def)
  have "smulm (Fin q) (outer3 (Fin y0, Fin y1, Fin y2) zeros3) = zeros33"
    by (simp add: outer3_def smulm_def mmap_def vmap_def zeros3_def zeros33_def zero_double_def)
  with a b z fin show "outer_jac (Fin q) Ji ! b ! a = zeros33"
    by (simp add: outer_jac_def)
qed



lemma bond_angles_hessian_2:
  assumes "bond_angles_hessian 2 0 am ao an u v un vn ang out = Inr out'"
  shows "\<exists>q t1 t2 t3 t4.
           cdiv (dcos ang) (dsin ang) = Inr q \<and>
           hess out' = foldl (bond_angles_pair (fst am) (fst an) (fst ao) t1 t2 t3 t4 0)
                         ((hess out)[0 := outer_jac (- q) (jac out ! 0)]) (atom_pairs [am, an, ao]) \<and>
           jac out' = jac out \<and> vals out' = vals out"
proof -
  obtain t1 t2 t3 t4 where t: "bond_angles_terms u v un vn (dcos ang) (dsin ang) = (t1, t2, t3, t4)"
    by (cases "bond_angles_terms u v un vn (dcos ang) (dsin ang)") auto
  from assms obtain q where q: "cdiv (dcos ang) (dsin ang) = Inr q"
    by (auto simp: bond_angles_hessian_def Let_def t split: sum.splits)
  with assms have "hess out' = foldl (bond_angles_pair (fst am) (fst an) (fst ao) t1 t2 t3 t4 0)
        ((hess out)[0 := outer_jac (- q) (jac out ! 0)]) (atom_pairs [am, an, ao]) \<and>
      jac out' = jac out \<and> vals out' = vals out"
    by (auto simp: bond_angles_hessian_def Let_def t simp del: foldl.simps)
  with q show ?thesis by blast
qed

lemma cdiv_finite:
  assumes "cdiv (dcos ang) (dsin ang) = Inr q"
  shows "ang \<noteq> NonFin \<Longrightarrow> \<exists>r. - q = Fin r" and "ang = NonFin \<Longrightarrow> - q = NonFin"
  using assms by (cases ang; auto simp: cdiv_def split: if_splits)+

lemma bond_angles_only_hessian:
  assumes run: "bond_angles xyz (only iangles k) 2 = Inr ret"
    and atoms: "resolve xyz (rows iangles ! k ! 0) = Some m"
      "resolve xyz (rows iangles ! k ! 1) = Some oa" "resolve xyz (rows iangles ! k ! 2) = Some n"
  obtains q t1 t2 t3 t4 where
    "hessian_of ret =
       foldl (bond_angles_pair (c_int (rows iangles ! k ! 0)) (c_int (rows iangles ! k ! 2))
                (c_int (rows iangles ! k ! 1)) t1 t2 t3 t4 0)
         [outer_jac q (hd (jacobian_of ret))]
         (atom_pairs [(c_int (rows iangles ! k ! 0), m), (c_int (rows iangles ! k ! 2), n),
                      (c_int (rows iangles ! k ! 1), oa)])"
    "hd (values_of ret) \<noteq> NonFin \<longrightarrow> (\<exists>r. q = Fin r)" "hd (values_of ret) = NonFin \<longrightarrow> q = NonFin"
proof -
  from bond_angles_only_body [OF run] obtain out where
    out: "bond_angles_body xyz 2 0 (rows iangles ! k) (alloc 1 (length (rows xyz)) 2) = Inr out"
    and ret: "ret = returned 2 out" by blast
  define U where "U = vsub (position xyz m) (position xyz oa)"
  define V where "V = vsub (position xyz n) (position xyz oa)"
  define ang where "ang = dacos (dot3 U V / (norm3 U * norm3 V))"
  have val: "values_of ret = [ang]"
    unfolding ang_def U_def V_def by (rule bond_angles_only_value(2) [OF run atoms])
  from out atoms obtain out2 where
    h: "bond_angles_hessian 2 0 (c_int (rows iangles ! k ! 0), m) (c_int (rows iangles ! k ! 1), oa)
          (c_int (rows iangles ! k ! 2), n) (vdiv U (norm3 U)) (vdiv V (norm3 V))
          (norm3 U) (norm3 V) ang out2 = Inr out"
    and len: "length (hess out2) = 1" "length (jac out2) = 1"
    unfolding bond_angles_body_def getitem_resolve Let_def cdiv_def ang_def U_def V_def
    by (auto simp: bond_angles_jacobian_def alloc_def Let_def split: sum.splits if_splits)
  from bond_angles_hessian_2 [OF h] obtain q t1 t2 t3 t4 where
    q: "cdiv (dcos ang) (dsin ang) = Inr q" and
    H: "hess out = foldl (bond_angles_pair (c_int (rows iangles ! k ! 0)) (c_int (rows iangles ! k ! 2))
                (c_int (rows iangles ! k ! 1)) t1 t2 t3 t4 0)
         ((hess out2)[0 := outer_jac (- q) (jac out2 ! 0)])
         (atom_pairs [(c_int (rows iangles ! k ! 0), m), (c_int (rows iangles ! k ! 2), n),
                      (c_int (rows iangles ! k ! 1), oa)])"
    and J: "jac out = jac out2"
    by auto
  from len obtain Z where Z: "hess out2 = [Z]" by (cases "hess out2") auto
  from len obtain Ji where Ji: "jac out2 = [Ji]" by (cases "jac out2") auto
  show ?thesis
  proof (rule that [of t1 t2 t3 t4 "- q"])
    show "hessian_of ret =
       foldl (bond_angles_pair (c_int (rows iangles ! k ! 0)) (c_int (rows iangles ! k ! 2))
                (c_int (rows iangles ! k ! 1)) t1 t2 t3 t4 0)
         [outer_jac (- q) (hd (jacobian_of ret))]
         (atom_pairs [(c_int (rows iangles ! k ! 0), m), (c_int (rows iangles ! k ! 2), n),
                      (c_int (rows iangles ! k ! 1), oa)])"
      by (simp add: ret returned_def H J Z Ji del: foldl.simps)
    show "hd (values_of ret) \<noteq> NonFin \<longrightarrow> (\<exists>r. - q = Fin r)"
      using cdiv_finite(1) [OF q] by (simp add: val)
    show "hd (values_of ret) = NonFin \<longrightarrow> - q = NonFin"
      using cdiv_finite(2) [OF q] by (simp add: val)
  qed
qed

lemma outer_jac_nonfin:
  assumes "a < length Ji" "b < length Ji"
  shows "outer_jac NonFin Ji ! a ! b = ((NonFin, NonFin, NonFin), (NonFin, NonFin, NonFin),
      (NonFin, NonFin, NonFin))"
  using assms by (simp add: outer_jac_def smulm_def mmap_def vmap_def case_prod_beta)


lemmas angle_call_defs = bond_angles_def bond_angles_body_def bond_angles_jacobian_def
  bond_angles_hessian_def cdiv_def c_int_def pyindex_def row3_def getitem_def alloc_def
  set_row_def returned_def Let_def

lemma test_angle_2_returns: "\<exists>ret. bond_angles test_xyz test_iangles 2 = Inr ret"
  by (simp add: angle_call_defs test_defs kernel_defs split: prod.splits del: foldl.simps)

lemma nan_angle_2_returns:
  "\<exists>ret. bond_angles \<lparr>shape1 = 3, rows = [[NonFin, 0, 0], [0, 0, 0], [0, 1, 0], [5, 5, 5]]\<rparr>
        \<lparr>shape1 = 3, rows = [[0, 1, 2]]\<rparr> 2 = Inr ret"
  by (simp add: angle_call_defs kernel_defs split: prod.splits del: foldl.simps)


lemma bond_angles_sparse:
  assumes run: "bond_angles xyz iangles deriv = Inr ret" and f: "f < length (rows iangles)"
    and a: "a < length (rows xyz)" and b: "b < length (rows xyz)"
    and out: "Some a \<notin> set (tuple_atoms xyz 3 (rows iangles ! f))"
  shows "deriv \<ge> 1 \<Longrightarrow> jacobian_of ret ! f ! a = zeros3"
    and "deriv = 2 \<Longrightarrow> values_of ret ! f \<noteq> NonFin \<Longrightarrow> finite3 (jacobian_of ret ! f ! b) \<Longrightarrow>
      hessian_of ret ! f ! a ! b = zeros33 \<and> hessian_of ret ! f ! b ! a = zeros33"
    and "deriv = 2 \<Longrightarrow> values_of ret ! f = NonFin \<Longrightarrow>
      hessian_of ret ! f ! a ! b = ((NonFin, NonFin, NonFin), (NonFin, NonFin, NonFin),
        (NonFin, NonFin, NonFin)) \<and>
      hessian_of ret ! f ! b ! a = ((NonFin, NonFin, NonFin), (NonFin, NonFin, NonFin),
        (NonFin, NonFin, NonFin))"
proof -
  let ?N = "length (rows xyz)"
  let ?NF = "((NonFin, NonFin, NonFin), (NonFin, NonFin, NonFin), (NonFin, NonFin, NonFin))"
  from run have ev: "evaluator 3 ''iangles must have 3 columns.'' (bond_angles_body xyz deriv)
      xyz iangles deriv = Inr ret"
    by (simp add: bond_angles_evaluator)
  from evaluator_feature [OF bond_angles_local ev f]
  have one: "bond_angles xyz (only iangles f) deriv = Inr (feature_of ret f)"
    by (simp add: bond_angles_evaluator)
  obtain m oa n where
    atoms: "resolve xyz (rows iangles ! f ! 0) = Some m" "resolve xyz (rows iangles ! f ! 1) = Some oa"
      "resolve xyz (rows iangles ! f ! 2) = Some n"
    by (rule bond_angles_only_atoms [OF one])
  with out have ne: "a \<noteq> m" "a \<noteq> oa" "a \<noteq> n" by (auto simp: tuple_atoms_3)
  have rows: "\<exists>Ji. jacobian_of (feature_of ret f) = [Ji] \<and> Ji ! a = zeros3 \<and> length Ji = ?N"
    if ge: "deriv \<ge> 1"
    using bond_angles_only_jacobian(3) [OF one ge atoms] ne a by simp
  show "jacobian_of ret ! f ! a = zeros3" if ge: "deriv \<ge> 1"
  proof -
    from rows [OF ge] obtain Ji where "jacobian_of (feature_of ret f) = [Ji]" "Ji ! a = zeros3"
      by blast
    then show ?thesis
      unfolding feature_of_jacobian [OF ev ge] by simp
  qed
  have blocks: "\<exists>q Ji. jacobian_of ret ! f = Ji \<and> Ji ! a = zeros3 \<and> length Ji = ?N \<and>
      hessian_of ret ! f ! a ! b = outer_jac q Ji ! a ! b \<and>
      hessian_of ret ! f ! b ! a = outer_jac q Ji ! b ! a \<and>
      (values_of ret ! f \<noteq> NonFin \<longrightarrow> (\<exists>r. q = Fin r)) \<and>
      (values_of ret ! f = NonFin \<longrightarrow> q = NonFin)" if d: "deriv = 2"
  proof -
    from d have ge: "deriv \<ge> 1" by simp
    from rows [OF ge] obtain Ji where Ji: "jacobian_of (feature_of ret f) = [Ji]"
      "Ji ! a = zeros3" "length Ji = ?N" by blast
    from one d have one2: "bond_angles xyz (only iangles f) 2 = Inr (feature_of ret f)" by simp
    let ?ps = "atom_pairs [(c_int (rows iangles ! f ! 0), m), (c_int (rows iangles ! f ! 2), n),
                      (c_int (rows iangles ! f ! 1), oa)]"
    obtain q t1 t2 t3 t4 where
      H: "hessian_of (feature_of ret f) =
       foldl (bond_angles_pair (c_int (rows iangles ! f ! 0)) (c_int (rows iangles ! f ! 2))
                (c_int (rows iangles ! f ! 1)) t1 t2 t3 t4 0)
         [outer_jac q (hd (jacobian_of (feature_of ret f)))] ?ps"
      and q: "hd (values_of (feature_of ret f)) \<noteq> NonFin \<longrightarrow> (\<exists>r. q = Fin r)"
        "hd (values_of (feature_of ret f)) = NonFin \<longrightarrow> q = NonFin"
      by (rule bond_angles_only_hessian [OF one2 atoms])
    have nt: "(a, b) \<notin> target ` set ?ps" "(b, a) \<notin> target ` set ?ps"
      using ne unfolding target_atom_pairs by simp_all
    let ?f = "bond_angles_pair (c_int (rows iangles ! f ! 0)) (c_int (rows iangles ! f ! 2))
                (c_int (rows iangles ! f ! 1)) t1 t2 t3 t4 0"
    have step: "\<exists>Y. ?f [X] p = [Y] \<and> (target p \<noteq> (a', b') \<longrightarrow> Y ! a' ! b' = X ! a' ! b')"
      for X p a' b'
      by (rule bond_angles_pair_step)
    from foldl_untouched [of ?f a b ?ps "outer_jac q Ji", OF step nt(1)]
    obtain Y where Y: "foldl ?f [outer_jac q Ji] ?ps = [Y]"
      "Y ! a ! b = outer_jac q Ji ! a ! b" by blast
    from foldl_untouched [of ?f b a ?ps "outer_jac q Ji", OF step nt(2)]
    obtain Y' where Y': "foldl ?f [outer_jac q Ji] ?ps = [Y']"
      "Y' ! b ! a = outer_jac q Ji ! b ! a" by blast
    from H Ji(1) have HY: "hessian_of (feature_of ret f) = [Y]"
      unfolding Y(1) [symmetric] by simp
    from Y(1) Y'(1) have same: "Y' = Y" by simp
    have hf: "hessian_of ret ! f = Y"
      using HY unfolding feature_of_hessian [OF ev d] by simp
    have jf: "jacobian_of ret ! f = Ji"
      using Ji(1) unfolding feature_of_jacobian [OF ev ge] by simp
    have vf: "hd (values_of (feature_of ret f)) = values_of ret ! f"
      by (simp add: feature_of_values)
    from q Y(2) Y'(2) Ji(2,3) show ?thesis
      unfolding hf jf vf same by blast
  qed
  show "hessian_of ret ! f ! a ! b = zeros33 \<and> hessian_of ret ! f ! b ! a = zeros33"
    if d: "deriv = 2" and v: "values_of ret ! f \<noteq> NonFin" and fin: "finite3 (jacobian_of ret ! f ! b)"
  proof -
    from blocks [OF d] v obtain r Ji where B: "jacobian_of ret ! f = Ji" "Ji ! a = zeros3"
      "length Ji = ?N" "hessian_of ret ! f ! a ! b = outer_jac (Fin r) Ji ! a ! b"
      "hessian_of ret ! f ! b ! a = outer_jac (Fin r) Ji ! b ! a" by blast
    from fin obtain y0 y1 y2 where "Ji ! b = (Fin y0, Fin y1, Fin y2)"
      unfolding B(1) using finite3D by blast
    from outer_jac_zero [of a Ji b y0 y1 y2 r, OF _ _ B(2) this] a b B(3,4,5)
    show ?thesis by simp
  qed
  show "hessian_of ret ! f ! a ! b = ?NF \<and> hessian_of ret ! f ! b ! a = ?NF"
    if d: "deriv = 2" and v: "values_of ret ! f = NonFin"
  proof -
    from blocks [OF d] v obtain Ji where B: "length Ji = ?N"
      "hessian_of ret ! f ! a ! b = outer_jac NonFin Ji ! a ! b"
      "hessian_of ret ! f ! b ! a = outer_jac NonFin Ji ! b ! a" by blast
    from outer_jac_nonfin [of a Ji b] outer_jac_nonfin [of b Ji a] a b B
    show ?thesis by simp
  qed
qed

lemma dihedral_angles_sparse:
  assumes run: "dihedral_angles xyz idihedrals deriv = Inr ret" and f: "f < length (rows idihedrals)"
    and a: "a < length (rows xyz)" and b: "b < length (rows xyz)"
    and out: "Some a \<notin> set (tuple_atoms xyz 4 (rows idihedrals ! f))"
  shows "deriv \<ge> 1 \<Longrightarrow> jacobian_of ret ! f ! a = zeros3"
    and "deriv = 2 \<Longrightarrow> hessian_of ret ! f ! a ! b = zeros33 \<and> hessian_of ret ! f ! b ! a = zeros33"
proof -
  let ?N = "length (rows xyz)"
  from run have ev: "evaluator 4 ''idihedrals must have 4 columns.'' (dihedral_angles_body xyz deriv)
      xyz idihedrals deriv = Inr ret"
    by (simp add: dihedral_angles_evaluator)
  from evaluator_feature [OF dihedral_angles_local ev f]
  have one: "dihedral_angles xyz (only idihedrals f) deriv = Inr (feature_of ret f)"
    by (simp add: dihedral_angles_evaluator)
  obtain m oa p n where
    atoms: "resolve xyz (rows idihedrals ! f ! 0) = Some m"
      "resolve xyz (rows idihedrals ! f ! 1) = Some oa"
      "resolve xyz (rows idihedrals ! f ! 2) = Some p"
      "resolve xyz (rows idihedrals ! f ! 3) = Some n"
    by (rule dihedral_angles_only_atoms [OF one])
  with out have ne: "a \<noteq> m" "a \<noteq> oa" "a \<noteq> p" "a \<noteq> n" by (auto simp: tuple_atoms_4)
  show "jacobian_of ret ! f ! a = zeros3" if ge: "deriv \<ge> 1"
  proof -
    from dihedral_angles_only_jacobian [OF one ge atoms] obtain t1 t2 t3 t4 where
      "jacobian_of (feature_of ret f) =
           [(replicate ?N zeros3)
              [m := t1, n := vneg t2, oa := vsub (vadd (vneg t1) t3) t4,
               p := vadd (vsub t2 t3) t4]]"
      by blast
    with ne a show ?thesis
      unfolding feature_of_jacobian [OF ev ge] by simp
  qed
  show "hessian_of ret ! f ! a ! b = zeros33 \<and> hessian_of ret ! f ! b ! a = zeros33" if d: "deriv = 2"
  proof -
    from d have ge: "deriv \<ge> 1" by simp
    let ?ps = "atom_pairs [(c_int (rows idihedrals ! f ! 0), m), (c_int (rows idihedrals ! f ! 3), n),
                      (c_int (rows idihedrals ! f ! 1), oa), (c_int (rows idihedrals ! f ! 2), p)]"
    let ?Z = "replicate ?N (replicate ?N zeros33)"
    from dihedral_angles_only_derivs(2) [OF one ge atoms d]
    obtain factor where H: "hessian_of (feature_of ret f) = foldl (dihedral_pair factor 0) [?Z] ?ps"
      unfolding dihedral_hessian_def using d by (auto split: prod.splits)
    have nt: "(a, b) \<notin> target ` set ?ps" "(b, a) \<notin> target ` set ?ps"
      using ne unfolding target_atom_pairs by simp_all
    have base: "?Z ! a ! b = zeros33" "?Z ! b ! a = zeros33"
      using a b by simp_all
    have step: "\<exists>Y. dihedral_pair factor 0 [X] q = [Y] \<and>
        (target q \<noteq> (a', b') \<longrightarrow> Y ! a' ! b' = X ! a' ! b')" for X q a' b'
      by (rule dihedral_pair_step)
    from foldl_untouched [of "dihedral_pair factor 0" a b ?ps ?Z, OF step nt(1)]
    obtain Y where Y: "foldl (dihedral_pair factor 0) [?Z] ?ps = [Y]" "Y ! a ! b = ?Z ! a ! b"
      by blast
    from foldl_untouched [of "dihedral_pair factor 0" b a ?ps ?Z, OF step nt(2)]
    obtain Y' where Y': "foldl (dihedral_pair factor 0) [?Z] ?ps = [Y']" "Y' ! b ! a = ?Z ! b ! a"
      by blast
    from H have HY: "hessian_of (feature_of ret f) = [Y]"
      unfolding Y(1) [symmetric] by simp
    from Y(1) Y'(1) have "Y' = Y" by simp
    with Y(2) Y'(2) base HY show ?thesis
      unfolding feature_of_hessian [OF ev d] by simp
  qed
qed


lemma tuple_atoms_card: "card {a. Some a \<in> set (tuple_atoms xyz arity r)} \<le> arity"
proof -
  let ?T = "set (tuple_atoms xyz arity r)"
  have "{a. Some a \<in> ?T} \<subseteq> the ` ?T" by force
  then have "card {a. Some a \<in> ?T} \<le> card (the ` ?T)"
    by (intro card_mono) simp_all
  also have "\<dots> \<le> card ?T" by (intro card_image_le) simp
  also have "\<dots> \<le> length (tuple_atoms xyz arity r)" by (rule card_length)
  also have "\<dots> = arity" by (simp add: tuple_atoms_def)
  finally show ?thesis .
qed



text \<open>
  C7, as the code has it. In a call of any of the three evaluators that returns, for a
  feature \<open>f\<close> and its atoms (the rows of the frame that the index values of row \<open>f\<close> of
  the index array refer to): at order 1 or 2 the Jacobian row \<open>(f, a, :)\<close> of every atom
  \<open>a\<close> that is not among them is the zero vector, so that at most as many rows as the
  tuple has columns are not zero. At order 2 the Hessian block \<open>(f, a, :, b, :)\<close> with
  \<open>a\<close> or \<open>b\<close> not among them is the zero matrix for \<open>bond_lengths\<close> and
  \<open>dihedral_angles\<close>, which never write it; \<open>bond_angles\<close> fills the whole Hessian of
  the feature with \<open>-(cos/sin) * outer(jacobian, jacobian)\<close>, and the block is the zero
  matrix when the angle of the feature and its Jacobian rows are finite, and NaN when the
  angle is NaN.
\<close>

theorem derivatives_sparse:
  fixes xyz idx f arity
  defines "T \<equiv> set (tuple_atoms xyz arity (rows idx ! f))"
  defines "N \<equiv> length (rows xyz)"
  assumes family: "eval = bond_lengths \<and> arity = 2 \<or> eval = bond_angles \<and> arity = 3 \<or>
      eval = dihedral_angles \<and> arity = 4"
    and run: "eval xyz idx deriv = Inr ret"
    and f: "f < length (rows idx)"
  shows "(deriv \<ge> 1 \<longrightarrow>
           (\<forall>a < N. Some a \<notin> T \<longrightarrow> jacobian_of ret ! f ! a = zeros3) \<and>
           card {a. a < N \<and> jacobian_of ret ! f ! a \<noteq> zeros3} \<le> arity) \<and>
         (deriv = 2 \<and>
          (arity = 3 \<longrightarrow> values_of ret ! f \<noteq> NonFin \<and> (\<forall>b < N. finite3 (jacobian_of ret ! f ! b)))
          \<longrightarrow> (\<forall>a < N. \<forall>b < N. Some a \<notin> T \<or> Some b \<notin> T \<longrightarrow>
                 hessian_of ret ! f ! a ! b = zeros33)) \<and>
         (deriv = 2 \<and> arity = 3 \<and> values_of ret ! f = NonFin
          \<longrightarrow> (\<forall>a < N. \<forall>b < N. Some a \<notin> T \<or> Some b \<notin> T \<longrightarrow>
                 hessian_of ret ! f ! a ! b =
                   ((NonFin, NonFin, NonFin), (NonFin, NonFin, NonFin), (NonFin, NonFin, NonFin))))"
proof -
  let ?NF = "((NonFin, NonFin, NonFin), (NonFin, NonFin, NonFin), (NonFin, NonFin, NonFin))"
  have jac: "jacobian_of ret ! f ! a = zeros3" if "deriv \<ge> 1" "a < N" "Some a \<notin> T" for a
    using family
  proof (elim disjE conjE)
    assume "eval = bond_lengths" "arity = 2"
    with run f that show ?thesis
      unfolding T_def N_def by (intro bond_lengths_sparse(1) [of xyz idx deriv ret f a a]) simp_all
  next
    assume "eval = bond_angles" "arity = 3"
    with run f that show ?thesis
      unfolding T_def N_def by (intro bond_angles_sparse(1) [of xyz idx deriv ret f a a]) simp_all
  next
    assume "eval = dihedral_angles" "arity = 4"
    with run f that show ?thesis
      unfolding T_def N_def by (intro dihedral_angles_sparse(1) [of xyz idx deriv ret f a a]) simp_all
  qed
  have hes: "hessian_of ret ! f ! a ! b = zeros33 \<and> hessian_of ret ! f ! b ! a = zeros33"
    if "deriv = 2" "a < N" "b < N" "Some a \<notin> T"
      and fin: "arity = 3 \<longrightarrow> values_of ret ! f \<noteq> NonFin \<and> finite3 (jacobian_of ret ! f ! b)"
    for a b
    using family
  proof (elim disjE conjE)
    assume "eval = bond_lengths" "arity = 2"
    with run f that show ?thesis
      unfolding T_def N_def by (intro bond_lengths_sparse(2) [of xyz idx deriv ret f a b]) simp_all
  next
    assume "eval = bond_angles" "arity = 3"
    with run f that show ?thesis
      unfolding T_def N_def by (intro bond_angles_sparse(2) [of xyz idx deriv ret f a b]) simp_all
  next
    assume "eval = dihedral_angles" "arity = 4"
    with run f that show ?thesis
      unfolding T_def N_def by (intro dihedral_angles_sparse(2) [of xyz idx deriv ret f a b]) simp_all
  qed
  have nan: "hessian_of ret ! f ! a ! b = ?NF \<and> hessian_of ret ! f ! b ! a = ?NF"
    if "deriv = 2" "a < N" "b < N" "Some a \<notin> T" "arity = 3" "values_of ret ! f = NonFin"
    for a b
  proof -
    from family that(5) have "eval = bond_angles" by auto
    with run f that show ?thesis
      unfolding T_def N_def by (intro bond_angles_sparse(3) [of xyz idx deriv ret f a b]) simp_all
  qed
  have few: "card {a. a < N \<and> jacobian_of ret ! f ! a \<noteq> zeros3} \<le> arity" if "deriv \<ge> 1"
  proof -
    have "{a. a < N \<and> jacobian_of ret ! f ! a \<noteq> zeros3} \<subseteq> {a. Some a \<in> T}"
      using jac [OF that] by blast
    moreover have "finite {a. Some a \<in> T}"
    proof (rule finite_subset)
      show "{a. Some a \<in> T} \<subseteq> the ` T" by force
      show "finite (the ` T)" by (simp add: T_def)
    qed
    ultimately have "card {a. a < N \<and> jacobian_of ret ! f ! a \<noteq> zeros3} \<le> card {a. Some a \<in> T}"
      by (rule card_mono [rotated])
    also have "\<dots> \<le> arity" unfolding T_def by (rule tuple_atoms_card)
    finally show ?thesis .
  qed
  have 1: "deriv \<ge> 1 \<longrightarrow>
           (\<forall>a < N. Some a \<notin> T \<longrightarrow> jacobian_of ret ! f ! a = zeros3) \<and>
           card {a. a < N \<and> jacobian_of ret ! f ! a \<noteq> zeros3} \<le> arity"
    using jac few by blast
  have 2: "deriv = 2 \<and>
          (arity = 3 \<longrightarrow> values_of ret ! f \<noteq> NonFin \<and> (\<forall>b < N. finite3 (jacobian_of ret ! f ! b)))
          \<longrightarrow> (\<forall>a < N. \<forall>b < N. Some a \<notin> T \<or> Some b \<notin> T \<longrightarrow>
                 hessian_of ret ! f ! a ! b = zeros33)"
  proof (intro impI allI, elim conjE)
    fix a b
    assume d: "deriv = 2" and a: "a < N" and b: "b < N" and o: "Some a \<notin> T \<or> Some b \<notin> T"
      and fin: "arity = 3 \<longrightarrow> values_of ret ! f \<noteq> NonFin \<and> (\<forall>b < N. finite3 (jacobian_of ret ! f ! b))"
    from o show "hessian_of ret ! f ! a ! b = zeros33"
    proof
      assume "Some a \<notin> T"
      from hes [OF d a b this] fin b show ?thesis by blast
    next
      assume "Some b \<notin> T"
      from hes [OF d b a this] fin a show ?thesis by blast
    qed
  qed
  have 3: "deriv = 2 \<and> arity = 3 \<and> values_of ret ! f = NonFin
          \<longrightarrow> (\<forall>a < N. \<forall>b < N. Some a \<notin> T \<or> Some b \<notin> T \<longrightarrow> hessian_of ret ! f ! a ! b = ?NF)"
  proof (intro impI allI, elim conjE)
    fix a b
    assume d: "deriv = 2" and a: "a < N" and b: "b < N" and o: "Some a \<notin> T \<or> Some b \<notin> T"
      and v: "arity = 3" "values_of ret ! f = NonFin"
    from o show "hessian_of ret ! f ! a ! b = ?NF"
    proof
      assume "Some a \<notin> T"
      from nan [OF d a b this v] show ?thesis by blast
    next
      assume "Some b \<notin> T"
      from nan [OF d b a this v] show ?thesis by blast
    qed
  qed
  from 1 2 3 show ?thesis by (intro conjI)
qed


theorem derivatives_sparse_witness:
  "\<exists>rb ra rd rn.
     bond_lengths test_xyz test_ibonds 2 = Inr rb \<and>
     jacobian_of rb ! 1 ! 0 = zeros3 \<and> jacobian_of rb ! 1 ! 3 = zeros3 \<and>
     hessian_of rb ! 1 ! 0 ! 1 = zeros33 \<and> hessian_of rb ! 1 ! 2 ! 3 = zeros33 \<and>
     bond_angles test_xyz test_iangles 2 = Inr ra \<and>
     values_of ra ! 0 = Fin (pi / 2) \<and>
     jacobian_of ra ! 0 ! 3 = zeros3 \<and>
     hessian_of ra ! 0 ! 3 ! 1 = zeros33 \<and> hessian_of ra ! 0 ! 0 ! 3 = zeros33 \<and>
     hessian_of ra ! 0 ! 3 ! 3 = zeros33 \<and>
     dihedral_angles \<lparr>shape1 = 3, rows = [[0, 1, 0], [0, 0, 0], [1, 0, 0], [1, 0, 1], [2, 2, 2]]\<rparr>
       test_idihedrals 2 = Inr rd \<and>
     jacobian_of rd ! 0 ! 4 = zeros3 \<and>
     hessian_of rd ! 0 ! 4 ! 1 = zeros33 \<and> hessian_of rd ! 0 ! 2 ! 4 = zeros33 \<and>
     card {a. a < 5 \<and> jacobian_of rd ! 0 ! a \<noteq> zeros3} \<le> 4 \<and>
     bond_angles \<lparr>shape1 = 3, rows = [[NonFin, 0, 0], [0, 0, 0], [0, 1, 0], [5, 5, 5]]\<rparr>
       test_iangles 2 = Inr rn \<and>
     hessian_of rn ! 0 ! 3 ! 0 =
       ((NonFin, NonFin, NonFin), (NonFin, NonFin, NonFin), (NonFin, NonFin, NonFin))"
proof -
  define F5 :: "double ndarray2" where
    "F5 = \<lparr>shape1 = 3, rows = [[0, 1, 0], [0, 0, 0], [1, 0, 0], [1, 0, 1], [2, 2, 2]]\<rparr>"
  define Fn :: "double ndarray2" where
    "Fn = \<lparr>shape1 = 3, rows = [[NonFin, 0, 0], [0, 0, 0], [0, 1, 0], [5, 5, 5]]\<rparr>"
  note defs = F5_def Fn_def test_defs array_defs tuple_atoms_def All_less_Suc eval_nat_numeral
  have "\<exists>rb. bond_lengths test_xyz test_ibonds 2 = Inr rb"
    by (simp add: bond_lengths_def bond_lengths_body_def test_defs kernel_defs array_defs Let_def)
  then obtain rb where b: "bond_lengths test_xyz test_ibonds 2 = Inr rb" ..
  from test_angle_2_returns obtain ra where a: "bond_angles test_xyz test_iangles 2 = Inr ra" ..
  have "\<exists>rn. bond_angles Fn test_iangles 2 = Inr rn"
    unfolding Fn_def test_iangles_def by (rule nan_angle_2_returns)
  then obtain rn where n: "bond_angles Fn test_iangles 2 = Inr rn" ..
  have "\<exists>rd. dihedral_angles F5 test_idihedrals 2 = Inr rd"
    by (rule dihedral_angles_succeeds) (simp_all add: defs)
  then obtain rd where d: "dihedral_angles F5 test_idihedrals 2 = Inr rd" ..
  have one: "only test_iangles 0 = test_iangles" by (simp add: only_def test_defs)
  have a': "bond_angles test_xyz (only test_iangles 0) 2 = Inr ra" unfolding one by (rule a)
  have n': "bond_angles Fn (only test_iangles 0) 2 = Inr rn" unfolding one by (rule n)
  have r: "resolve test_xyz (rows test_iangles ! 0 ! 0) = Some 0"
    "resolve test_xyz (rows test_iangles ! 0 ! 1) = Some 1"
    "resolve test_xyz (rows test_iangles ! 0 ! 2) = Some 2"
    "resolve Fn (rows test_iangles ! 0 ! 0) = Some 0"
    "resolve Fn (rows test_iangles ! 0 ! 1) = Some 1"
    "resolve Fn (rows test_iangles ! 0 ! 2) = Some 2"
    by (simp_all add: defs)
  have ge: "(1::int) \<le> 2" by simp
  have va: "values_of ra = [Fin (pi / 2)]"
    using bond_angles_only_value(2) [OF a' r(1-3)]
    by (simp add: test_defs array_defs kernel_defs)
  have ja: "jacobian_of ra = [[(Fin (- 1), Fin 0, Fin 0), (Fin 1, Fin 1, Fin 0),
      (Fin 0, Fin (- 1), Fin 0), (Fin 0, Fin 0, Fin 0)]]"
    using bond_angles_only_jacobian(3) [OF a' ge r(1-3)]
    by (simp add: test_defs array_defs kernel_defs)
  have vn: "values_of rn = [NonFin]"
    using bond_angles_only_value(2) [OF n' r(4-6)]
    by (simp add: defs kernel_defs)
  from derivatives_sparse [of bond_lengths 2 test_xyz test_ibonds 2 rb 1] b
  have 1: "jacobian_of rb ! 1 ! 0 = zeros3 \<and> jacobian_of rb ! 1 ! 3 = zeros3 \<and>
     hessian_of rb ! 1 ! 0 ! 1 = zeros33 \<and> hessian_of rb ! 1 ! 2 ! 3 = zeros33"
    by (simp add: defs)
  from derivatives_sparse [of bond_angles 3 test_xyz test_iangles 2 ra 0] a va ja
  have 2: "jacobian_of ra ! 0 ! 3 = zeros3 \<and>
     hessian_of ra ! 0 ! 3 ! 1 = zeros33 \<and> hessian_of ra ! 0 ! 0 ! 3 = zeros33 \<and>
     hessian_of ra ! 0 ! 3 ! 3 = zeros33"
    by (simp add: defs finite3_def kernel_defs)
  from derivatives_sparse [of dihedral_angles 4 F5 test_idihedrals 2 rd 0] d
  have 3: "jacobian_of rd ! 0 ! 4 = zeros3 \<and>
     hessian_of rd ! 0 ! 4 ! 1 = zeros33 \<and> hessian_of rd ! 0 ! 2 ! 4 = zeros33 \<and>
     card {a. a < 5 \<and> jacobian_of rd ! 0 ! a \<noteq> zeros3} \<le> 4"
    by (simp add: defs)
  from derivatives_sparse [of bond_angles 3 Fn test_iangles 2 rn 0] n vn
  have 4: "hessian_of rn ! 0 ! 3 ! 0 =
       ((NonFin, NonFin, NonFin), (NonFin, NonFin, NonFin), (NonFin, NonFin, NonFin))"
    by (simp add: defs)
  from a b d n 1 2 3 4 va show ?thesis
    unfolding F5_def Fn_def by (intro exI [of _ rb] exI [of _ ra] exI [of _ rd] exI [of _ rn]) simp
qed

text \<open>
  The four-atom frame whose first coordinate is NaN, with the angle \<open>(0, 1, 2)\<close> at order 2:
  the call returns (NaN is not zero, so that the C divisions do not raise, and no comparison
  with NaN holds, so that the test of the unit vectors passes), the angle is NaN, and the
  Hessian blocks \<open>(0, 3, :, 3, :)\<close> and \<open>(0, 3, :, 0, :)\<close> of atom 3, which is not in the
  tuple, are NaN and not zero.
\<close>

theorem nan_frame_counterexample:
  "map_sum id (\<lambda>r. (hessian_of r ! 0 ! 3 ! 3, hessian_of r ! 0 ! 3 ! 0))
     (bond_angles \<lparr>shape1 = 3, rows = [[NonFin, 0, 0], [0, 0, 0], [0, 1, 0], [5, 5, 5]]\<rparr>
        \<lparr>shape1 = 3, rows = [[0, 1, 2]]\<rparr> 2) =
   Inr (((NonFin, NonFin, NonFin), (NonFin, NonFin, NonFin), (NonFin, NonFin, NonFin)),
        ((NonFin, NonFin, NonFin), (NonFin, NonFin, NonFin), (NonFin, NonFin, NonFin)))"
proof -
  define Fn :: "double ndarray2" where
    "Fn = \<lparr>shape1 = 3, rows = [[NonFin, 0, 0], [0, 0, 0], [0, 1, 0], [5, 5, 5]]\<rparr>"
  define I :: "int ndarray2" where "I = \<lparr>shape1 = 3, rows = [[0, 1, 2]]\<rparr>"
  note defs = Fn_def I_def array_defs tuple_atoms_def eval_nat_numeral
  have "\<exists>rn. bond_angles Fn I 2 = Inr rn"
    unfolding Fn_def I_def by (rule nan_angle_2_returns)
  then obtain rn where n: "bond_angles Fn I 2 = Inr rn" ..
  have one: "only I 0 = I" by (simp add: only_def I_def)
  have n': "bond_angles Fn (only I 0) 2 = Inr rn" unfolding one by (rule n)
  have r: "resolve Fn (rows I ! 0 ! 0) = Some 0" "resolve Fn (rows I ! 0 ! 1) = Some 1"
    "resolve Fn (rows I ! 0 ! 2) = Some 2"
    by (simp_all add: defs)
  have "values_of rn = [NonFin]"
    using bond_angles_only_value(2) [OF n' r]
    by (simp add: defs kernel_defs)
  then have v: "values_of rn ! 0 = NonFin" by simp
  have out: "Some 3 \<notin> set (tuple_atoms Fn 3 (rows I ! 0))" by (simp add: defs)
  have len: "0 < length (rows I)" "3 < length (rows Fn)" "0 < length (rows Fn)"
    by (simp_all add: defs)
  from bond_angles_sparse(3) [OF n len(1) len(2) len(2) out refl v]
    bond_angles_sparse(3) [OF n len(1) len(2) len(3) out refl v]
  show ?thesis
    unfolding Fn_def [symmetric] I_def [symmetric] n by simp
qed


subsection \<open>The blocks of a dihedral Hessian\<close>

lemma four_atoms_written:
  "foldl (dihedral_pair F 0) [replicate 4 (replicate 4 Z)]
     (atom_pairs [(0, 0), (3, 3), (1, 1), (2, 2)]) =
   [[[F 0 0, F 0 1, F 0 2, F 0 3], [F 1 0, F 1 1, F 1 2, F 1 3],
     [F 2 0, F 2 1, F 2 2, F 2 3], [F 3 0, F 3 1, F 3 2, F 3 3]]]"
  by (simp add: atom_pairs_def dihedral_pair_def set_block_single blk_set_def eval_nat_numeral)


lemma test_tensors:
  "dihedral_tensors (Fin 0, Fin 1, Fin 0) (Fin 0, Fin 0, Fin 1) (Fin 1, Fin 0, Fin 0)
     (Fin 0, Fin 0, Fin (- 1)) (Fin 0, Fin 1, Fin 0) (Fin 1) (Fin 1) (Fin 1) (Fin 0) (Fin 0) =
   (((Fin 0, Fin 0, Fin 0), (Fin 0, Fin 0, Fin 1), (Fin 0, Fin 1, Fin 0)),
    ((Fin 0, Fin 0, Fin 0), (Fin 0, Fin 0, Fin (- 1)), (Fin 0, Fin (- 1), Fin 0)),
    ((Fin 0, Fin 0, Fin (- 1 / 2)), (Fin 0, Fin 0, Fin 0), (Fin (- 1 / 2), Fin 0, Fin 0)),
    ((Fin 0, Fin (1 / 2), Fin 0), (Fin (1 / 2), Fin 0, Fin 0), (Fin 0, Fin 0, Fin 0)),
    ((Fin 0, Fin 0, Fin 0), (Fin 0, Fin 0, Fin (- 1 / 2)), (Fin 0, Fin (- 1 / 2), Fin 0)),
    ((Fin 0, Fin 0, Fin 0), (Fin 0, Fin 0, Fin (1 / 2)), (Fin 0, Fin (1 / 2), Fin 0)),
    ((Fin 0, Fin 0, Fin (1 / 4)), (Fin 0, Fin 0, Fin 0), (Fin (- 1 / 4), Fin 0, Fin 0)),
    ((Fin 0, Fin (1 / 2), Fin 0), (Fin (- 1 / 2), Fin 0, Fin 0), (Fin 0, Fin 0, Fin 0)))"
  by (simp add: dihedral_tensors_def kernel_defs Let_def)


text \<open>
  C1. At the scenario of the test script, at order 2, \<open>dihedral_angles\<close> returns, and the
  blocks \<open>[0, 0, :, 1, :]\<close> and \<open>[0, 1, :, 0, :]\<close> of its Hessian are not the transposes
  of each other: \<open>hessian[0, 0, 0, 1, 2]\<close> is \<open>-1/4\<close> and \<open>hessian[0, 1, 2, 0, 0]\<close> is
  \<open>-1/2\<close>; \<open>hessian[0, 0, 2, 1, 0]\<close> is \<open>-3/4\<close> and \<open>hessian[0, 1, 0, 0, 2]\<close> is \<open>1/2\<close>.
\<close>

theorem dihedral_hessian_blocks_differ:
  "\<exists>ret. dihedral_angles test_xyz test_idihedrals 2 = Inr ret \<and>
     hessian_of ret ! 0 ! 0 ! 1 =
       ((Fin 0, Fin 0, Fin (- 1 / 4)), (Fin 0, Fin 0, Fin (- 1)), (Fin (- 3 / 4), Fin (- 1), Fin 0)) \<and>
     hessian_of ret ! 0 ! 1 ! 0 =
       ((Fin 0, Fin 0, Fin (1 / 2)), (Fin 0, Fin 0, Fin (- 1)), (Fin (- 1 / 2), Fin (- 1), Fin 0)) \<and>
     transpose3 (hessian_of ret ! 0 ! 1 ! 0) \<noteq> hessian_of ret ! 0 ! 0 ! 1"
proof -
  have one: "only test_idihedrals 0 = test_idihedrals"
    by (simp add: only_def test_defs)
  have sh: "shape1 test_xyz = 3" "shape1 test_idihedrals = 4" "length (rows test_xyz) = 4"
    by (simp_all add: test_defs)
  have atoms: "resolve test_xyz (rows test_idihedrals ! 0 ! 0) = Some 0"
    "resolve test_xyz (rows test_idihedrals ! 0 ! 1) = Some 1"
    "resolve test_xyz (rows test_idihedrals ! 0 ! 2) = Some 2"
    "resolve test_xyz (rows test_idihedrals ! 0 ! 3) = Some 3"
    by (simp_all add: test_defs array_defs)
  have ints: "c_int (rows test_idihedrals ! 0 ! 0) = 0" "c_int (rows test_idihedrals ! 0 ! 1) = 1"
    "c_int (rows test_idihedrals ! 0 ! 2) = 2" "c_int (rows test_idihedrals ! 0 ! 3) = 3"
    by (simp_all add: test_defs array_defs)
  from dihedral_angles_only_ok [of test_xyz test_idihedrals 2 0] sh atoms
  obtain ret where run: "dihedral_angles test_xyz (only test_idihedrals 0) 2 = Inr ret"
    by auto
  have vec: "vsub (position test_xyz 0) (position test_xyz 1) = (Fin 0, Fin 1, Fin 0)"
    "vsub (position test_xyz 3) (position test_xyz 2) = (Fin 0, Fin 0, Fin 1)"
    "vsub (position test_xyz 2) (position test_xyz 1) = (Fin 1, Fin 0, Fin 0)"
    by (simp_all add: test_defs array_defs kernel_defs)
  have geo: "norm3 (Fin 0, Fin 1, Fin 0) = Fin 1" "norm3 (Fin 0, Fin 0, Fin 1) = Fin 1"
    "norm3 (Fin 1, Fin 0, Fin 0) = Fin 1"
    "vdiv (Fin 0, Fin 1, Fin 0) (Fin 1) = (Fin 0, Fin 1, Fin 0)"
    "vdiv (Fin 0, Fin 0, Fin 1) (Fin 1) = (Fin 0, Fin 0, Fin 1)"
    "vdiv (Fin 1, Fin 0, Fin 0) (Fin 1) = (Fin 1, Fin 0, Fin 0)"
    "vdiv (cross3 (Fin 0, Fin 0, Fin 1) (Fin 1, Fin 0, Fin 0)) (Fin 1 * Fin 1) = (Fin 0, Fin 1, Fin 0)"
    "vdiv (cross3 (Fin 0, Fin 1, Fin 0) (Fin 1, Fin 0, Fin 0)) (Fin 1 * Fin 1) = (Fin 0, Fin 0, Fin (- 1))"
    "dot3 (Fin 0, Fin 1, Fin 0) (Fin 1, Fin 0, Fin 0) = Fin 0"
    "dot3 (Fin 0, Fin 0, Fin 1) (Fin 1, Fin 0, Fin 0) = Fin 0"
    by (simp_all add: vdiv_fin)
  define F where "F = dihedral_factor 0 1 2 3
      ((Fin 0, Fin 0, Fin 0), (Fin 0, Fin 0, Fin 1), (Fin 0, Fin 1, Fin 0))
      ((Fin 0, Fin 0, Fin 0), (Fin 0, Fin 0, Fin (- 1)), (Fin 0, Fin (- 1), Fin 0))
      ((Fin 0, Fin 0, Fin (- 1 / 2)), (Fin 0, Fin 0, Fin 0), (Fin (- 1 / 2), Fin 0, Fin 0))
      ((Fin 0, Fin (1 / 2), Fin 0), (Fin (1 / 2), Fin 0, Fin 0), (Fin 0, Fin 0, Fin 0))
      ((Fin 0, Fin 0, Fin 0), (Fin 0, Fin 0, Fin (- 1 / 2)), (Fin 0, Fin (- 1 / 2), Fin 0))
      ((Fin 0, Fin 0, Fin 0), (Fin 0, Fin 0, Fin (1 / 2)), (Fin 0, Fin (1 / 2), Fin 0))
      ((Fin 0, Fin 0, Fin (1 / 4)), (Fin 0, Fin 0, Fin 0), (Fin (- 1 / 4), Fin 0, Fin 0))"
  have ge: "(1::int) \<le> 2" by simp
  have H: "hessian_of ret = foldl (dihedral_pair F 0) [replicate 4 (replicate 4 zeros33)]
     (atom_pairs [(0, 0), (3, 3), (1, 1), (2, 2)])"
    unfolding dihedral_angles_only_derivs(2) [OF run ge atoms refl] sh(3) ints vec geo
      dihedral_hessian_def test_tensors F_def
    by simp
  have mo: "F 0 1 =
      ((Fin 0, Fin 0, Fin (- 1 / 4)), (Fin 0, Fin 0, Fin (- 1)), (Fin (- 3 / 4), Fin (- 1), Fin 0))"
    by (simp add: F_def dihedral_factor_def factor_add_def kernel_defs Let_def)
  have om: "F 1 0 =
      ((Fin 0, Fin 0, Fin (1 / 2)), (Fin 0, Fin 0, Fin (- 1)), (Fin (- 1 / 2), Fin (- 1), Fin 0))"
    by (simp add: F_def dihedral_factor_def factor_add_def kernel_defs Let_def)
  have "hessian_of ret ! 0 ! 0 ! 1 = F 0 1" "hessian_of ret ! 0 ! 1 ! 0 = F 1 0"
    unfolding H four_atoms_written by simp_all
  with run show ?thesis
    unfolding one mo om by (intro exI [of _ ret]) (simp add: transpose3_def)
qed

subsection \<open>The combinatorial selector\<close>

text \<open>
  C10. \<open>sign6\<close> is unchanged when its two index triples are exchanged, and \<open>sign3 i j k\<close>
  is \<open>1\<close> when \<open>i = j\<close> (also when \<open>i = k\<close> as well), \<open>-1\<close> when \<open>i = k\<close> and
  \<open>i \<noteq> j\<close>, and \<open>0\<close> otherwise.
\<close>

theorem sign6_exchange_sign3_cases:
  "sign6 a b c i j k = sign6 i j k a b c \<and>
   sign3 i j k = (if i = j then 1 else if i = k then - 1 else 0)"
  by (simp add: sign6_def sign3_def)

end
